theory Spec2Isabelle
  imports Complex_Main
begin

section \<open>Reading planner: the scheduling engine of plan\_lectura.py\<close>

text \<open>
  Conventions of the embedding.
  \<^item> A \<open>date\<close> is its proleptic Gregorian ordinal (\<open>date.toordinal()\<close>), an integer;
    adding \<open>timedelta(days=1)\<close> adds one. The upper bound of Python's dates (year 9999)
    is not modelled.
  \<^item> A float quantity of minutes is an exact rational; the threshold \<open>0.1\<close> is \<open>1/10\<close>.
    The residues of double arithmetic (\<open>100 * (69 / 60)\<close> is \<open>114.99999999999999\<close> in
    Python and \<open>115\<close> here), the rounding of \<open>timedelta\<close> to microseconds and the
    truncation of \<open>strftime\<close> to seconds are not modelled; what depends on them is not
    stated below.
  \<^item> A \<open>datetime\<close> is the rational number of minutes since midnight of ordinal 0, a
    \<open>datetime.time\<close> the number of minutes since midnight. Fields that hold the output
    of \<open>strftime\<close> hold the date or datetime that is printed.
  \<^item> A Python string is the list of the bytes of its UTF-8 encoding.
  \<^item> Built-ins whose results are not computed here (\<open>hash\<close>, number formatting,
    \<open>round\<close>) are the fields of an environment; the wall clock is a function from the
    number of earlier readings to the reading.
\<close>

subsection \<open>Dates and times\<close>

type_synonym date = int
type_synonym datetime = rat
type_synonym time_of_day = rat

definition weekday :: "date \<Rightarrow> int" where
  "weekday d = (d + 6) mod 7"

definition combine :: "date \<Rightarrow> time_of_day \<Rightarrow> datetime" where
  "combine d t = of_int d * 1440 + t"

definition date_of :: "datetime \<Rightarrow> date" where
  "date_of dt = \<lfloor>dt / 1440\<rfloor>"

record pyenv =
  py_hash :: "string \<Rightarrow> int"
  fmt_0f :: "rat \<Rightarrow> string"
  fmt_2f :: "rat \<Rightarrow> string"
  py_str :: "int \<Rightarrow> string"
  py_round2 :: "rat \<Rightarrow> rat"

subsection \<open>Books and reading time\<close>

record Book =
  title :: string
  pages :: int
  category :: string

definition calculate_reading_time_minutes :: "Book \<Rightarrow> (string \<rightharpoonup> rat) \<Rightarrow> rat" where
  "calculate_reading_time_minutes book reading_speeds =
     (let minutes_per_page = (case reading_speeds (category book) of None \<Rightarrow> 2 | Some v \<Rightarrow> v)
      in of_int (pages book) * minutes_per_page)"

definition calculate_reading_time_hours :: "Book \<Rightarrow> (string \<rightharpoonup> rat) \<Rightarrow> rat" where
  "calculate_reading_time_hours book reading_speeds =
     calculate_reading_time_minutes book reading_speeds / 60"

subsection \<open>Calendar text\<close>

text \<open>The identifier is the start date and the hash of the title, which the f-string
  prints around fixed text; the formatting of a timestamp keeps the timestamp.\<close>

definition get_ics_uid :: "pyenv \<Rightarrow> datetime \<Rightarrow> string \<Rightarrow> date \<times> int" where
  "get_ics_uid env date_obj ttl = (date_of date_obj, py_hash env ttl)"

definition format_ics_datetime :: "datetime \<Rightarrow> datetime" where
  "format_ics_datetime dt = dt"

text \<open>\<open>str.replace\<close> with a pattern of one character.\<close>

definition replace_char :: "char \<Rightarrow> string \<Rightarrow> string \<Rightarrow> string" where
  "replace_char old new text = concat (map (\<lambda>c. if c = old then new else [c]) text)"

definition escape_ics_text :: "string \<Rightarrow> string" where
  "escape_ics_text text =
     replace_char (CHR 0x0A) [CHR 0x5C, CHR ''n'']
       (replace_char (CHR '';'') [CHR 0x5C, CHR '';'']
         (replace_char (CHR '','') [CHR 0x5C, CHR '','']
           (replace_char (CHR 0x5C) [CHR 0x5C, CHR 0x5C] text)))"

text \<open>The escaping as the specification words it: each of the four characters is
  replaced by its escaped form, in one pass.\<close>

definition escape_char :: "char \<Rightarrow> string" where
  "escape_char c =
     (if c = CHR 0x5C then [CHR 0x5C, CHR 0x5C]
      else if c = CHR '','' then [CHR 0x5C, CHR '','']
      else if c = CHR '';'' then [CHR 0x5C, CHR '';'']
      else if c = CHR 0x0A then [CHR 0x5C, CHR ''n'']
      else [c])"

text \<open>Modelled from the spec: the inverse unescape of the round-trip property; the
  repository has no such function. A backslash takes the next character with it:
  \<open>n\<close> gives a newline, any other character itself.\<close>

fun unescape_ics_text :: "string \<Rightarrow> string" where
  "unescape_ics_text [] = []"
| "unescape_ics_text [c] = [c]"
| "unescape_ics_text (c # d # cs) =
     (if c = CHR 0x5C then (if d = CHR ''n'' then CHR 0x0A else d) # unescape_ics_text cs
      else c # unescape_ics_text (d # cs))"

fun join :: "string \<Rightarrow> string list \<Rightarrow> string" where
  "join sep [] = []"
| "join sep [x] = x"
| "join sep (x # y # ys) = x @ sep @ join sep (y # ys)"

record reminder =
  r_minutes :: int
  r_description :: string

record reminders =
  normal :: "reminder list"
  review :: "reminder list"

definition create_valarm_blocks :: "pyenv \<Rightarrow> reminder list \<Rightarrow> string list" where
  "create_valarm_blocks env rs =
     map (\<lambda>r.
       (let minutes = r_minutes r;
            description = escape_ics_text (r_description r);
            duration = ''-PT'' @ py_str env minutes @ ''M''
        in join [CHR 0x0A]
             [''BEGIN:VALARM'', ''ACTION:DISPLAY'', ''DESCRIPTION:'' @ description,
              ''TRIGGER:'' @ duration, ''END:VALARM''])) rs"

subsection \<open>Events\<close>

record event =
  uid :: "date \<times> int"
  dtstamp :: datetime
  dtstart :: datetime
  dtend :: datetime
  summary :: string
  description :: string
  location :: string
  organizer_email :: string
  organizer_name :: string
  status :: string
  valarms :: "string list"
  sequence :: int
  transp :: string
  ev_class :: string
  priority :: int

text \<open>The dictionary that \<open>add_event\<close> builds (lines 111 to 127); \<open>now\<close> is what
  \<open>datetime.datetime.now()\<close> returns in this call.\<close>

definition new_event ::
  "pyenv \<Rightarrow> datetime \<Rightarrow> datetime \<Rightarrow> rat \<Rightarrow> string \<Rightarrow> string \<Rightarrow> string \<Rightarrow> string \<Rightarrow>
   reminders \<Rightarrow> string \<Rightarrow> string \<Rightarrow> bool \<Rightarrow> event" where
  "new_event env now dt_start minutes smry descr org_email org_name
     reminders_config loc stat is_review =
     (let dt_end = dt_start + minutes;
          active_reminders = (if is_review then review reminders_config else normal reminders_config);
          valarm_blocks = create_valarm_blocks env active_reminders
      in \<lparr>uid = get_ics_uid env dt_start smry,
          dtstamp = format_ics_datetime now,
          dtstart = format_ics_datetime dt_start,
          dtend = format_ics_datetime dt_end,
          summary = escape_ics_text smry,
          description = escape_ics_text descr,
          location = escape_ics_text loc,
          organizer_email = org_email,
          organizer_name = escape_ics_text org_name,
          status = stat,
          valarms = valarm_blocks,
          sequence = 0,
          transp = ''OPAQUE'',
          ev_class = ''PUBLIC'',
          priority = (if is_review then 3 else 5)\<rparr>)"

definition add_event ::
  "pyenv \<Rightarrow> datetime \<Rightarrow> event list \<Rightarrow> datetime \<Rightarrow> rat \<Rightarrow> string \<Rightarrow> string \<Rightarrow> string \<Rightarrow> string \<Rightarrow>
   reminders \<Rightarrow> string \<Rightarrow> string \<Rightarrow> bool \<Rightarrow> event list" where
  "add_event env now events_list dt_start minutes smry descr org_email org_name
     reminders_config loc stat is_review =
     events_list @
       [new_event env now dt_start minutes smry descr org_email org_name
          reminders_config loc stat is_review]"

subsection \<open>The review scheduler\<close>

text \<open>The \<open>while\<close> loop of \<open>schedule_book_review\<close>; \<open>None\<close> is the loop that never ends.\<close>

partial_function (option) review_date_loop :: "int list \<Rightarrow> date \<Rightarrow> date option" where
  "review_date_loop reading_weekdays review_date =
     (if weekday review_date \<notin> set reading_weekdays
      then review_date_loop reading_weekdays (review_date + 1)
      else Some review_date)"

definition review_summary :: "string \<Rightarrow> string" where
  "review_summary book_name =
     [CHR 0xF0, CHR 0x9F, CHR 0x94, CHR 0x84] @ '' REVISI'' @ [CHR 0xC3, CHR 0x93] @
     ''N COMPLETA: '' @ book_name"

definition review_description :: "pyenv \<Rightarrow> string \<Rightarrow> rat \<Rightarrow> int \<Rightarrow> string" where
  "review_description env book_name book_hours review_time_min =
     ''Sesi'' @ [CHR 0xC3, CHR 0xB3] @ ''n de consolidaci'' @ [CHR 0xC3, CHR 0xB3] @
     ''n y Active Recall'' @ [CHR 0x0A, CHR 0x0A, CHR 0xF0, CHR 0x9F, CHR 0x93, CHR 0x9A] @
     '' Libro completado: '' @ book_name @
     [CHR 0x0A, CHR 0xE2, CHR 0x8F, CHR 0xB1, CHR 0xEF, CHR 0xB8, CHR 0x8F] @
     '' Tiempo total invertido: '' @ fmt_2f env book_hours @
     '' horas'' @ [CHR 0x0A, CHR 0xF0, CHR 0x9F, CHR 0x8E, CHR 0xAF] @ '' Duraci'' @
     [CHR 0xC3, CHR 0xB3] @ ''n de revisi'' @ [CHR 0xC3, CHR 0xB3] @ ''n: '' @
     py_str env review_time_min @
     '' minutos'' @ [CHR 0x0A, CHR 0x0A] @ ''OBJETIVOS DE LA SESI'' @ [CHR 0xC3, CHR 0x93] @
     ''N:'' @ [CHR 0x0A, CHR 0xE2, CHR 0x9C, CHR 0x93] @ '' Active Recall completo del libro'' @
     [CHR 0x0A, CHR 0xE2, CHR 0x9C, CHR 0x93] @ '' Revisar todas las notas y anotaciones'' @
     [CHR 0x0A, CHR 0xE2, CHR 0x9C, CHR 0x93] @ '' Crear/actualizar mapa conceptual'' @
     [CHR 0x0A, CHR 0xE2, CHR 0x9C, CHR 0x93] @ '' Conectar con otros libros le'' @
     [CHR 0xC3, CHR 0xAD] @ ''dos'' @ [CHR 0x0A, CHR 0xE2, CHR 0x9C, CHR 0x93] @
     '' Elaborar resumen ejecutivo''"

definition schedule_book_review ::
  "pyenv \<Rightarrow> datetime \<Rightarrow> event list \<Rightarrow> date \<Rightarrow> string \<Rightarrow> rat \<Rightarrow> int \<Rightarrow> time_of_day \<Rightarrow> int list \<Rightarrow>
   string \<Rightarrow> string \<Rightarrow> reminders \<Rightarrow> event list option" where
  "schedule_book_review env now events_list review_date book_name book_hours review_time_min
     start_time_review reading_weekdays org_email org_name reminders_config =
     (case review_date_loop reading_weekdays review_date of
        None \<Rightarrow> None
      | Some rd \<Rightarrow>
          (let review_start_time = combine rd start_time_review
           in Some (add_event env now events_list review_start_time (of_int review_time_min)
                (review_summary book_name)
                (review_description env book_name book_hours review_time_min)
                org_email org_name reminders_config
                ''Espacio de estudio tranquilo'' ''CONFIRMED'' True)))"

subsection \<open>The plan engine\<close>

record plan_input =
  book_schedule_list :: "Book list"
  start_date :: date
  end_date :: date
  daily_time_total_minutes :: int
  review_time_per_book_min :: int
  reading_speeds :: "string \<rightharpoonup> rat"
  reading_weekdays :: "int list"
  start_time_books :: time_of_day
  start_time_review :: time_of_day
  organizer_email_in :: string
  organizer_name_in :: string

record completed_book =
  Libro :: string
  Horas :: rat
  Fecha_de_finalizacion :: date

text \<open>The statistics dictionary; the early return for an empty book list has no
  \<open>total_days\<close> key, which is \<open>None\<close> here.\<close>

record stats =
  total_events :: nat
  books_completed_count :: nat
  total_book_hours :: rat
  total_days :: "int option"

text \<open>The local variables that live across the days of the main loop. \<open>clock_reads\<close>
  counts the calls of \<open>datetime.now()\<close>, \<open>notices\<close> holds the dates shown by
  \<open>st.success\<close>.\<close>

record plan_state =
  events :: "event list"
  books_completed :: "completed_book list"
  current_book_index :: nat
  current_book_remaining_min :: rat
  clock_reads :: nat
  notices :: "date list"

record plan_result =
  res_events :: "event list"
  res_books_completed :: "completed_book list"
  res_stats :: stats
  res_notices :: "date list"

definition reminders_config :: reminders where
  "reminders_config =
     \<lparr>normal = [\<lparr>r_minutes = 5, r_description = ''5 minutos antes - Prepara materiales''\<rparr>],
      review = [\<lparr>r_minutes = 10,
                 r_description = ''10 minutos antes - Sesi'' @ [CHR 0xC3, CHR 0xB3] @
                   ''n de consolidaci'' @ [CHR 0xC3, CHR 0xB3] @ ''n''\<rparr>]\<rparr>"

definition reading_summary :: "string \<Rightarrow> string" where
  "reading_summary book_name =
     [CHR 0xF0, CHR 0x9F, CHR 0x93, CHR 0x9A] @ '' LECTURA: '' @ book_name"

definition reading_description :: "pyenv \<Rightarrow> string \<Rightarrow> rat \<Rightarrow> rat \<Rightarrow> string" where
  "reading_description env book_name remaining_min time_to_dedicate =
     ''Sesi'' @ [CHR 0xC3, CHR 0xB3] @ ''n de lectura profunda'' @
     [CHR 0x0A, CHR 0x0A, CHR 0xF0, CHR 0x9F, CHR 0x93, CHR 0x96] @ '' Libro: '' @ book_name @
     [CHR 0x0A, CHR 0xE2, CHR 0x8F, CHR 0xB3] @ '' Tiempo restante del libro: '' @
     fmt_0f env remaining_min @
     '' min'' @ [CHR 0x0A, CHR 0xE2, CHR 0x8F, CHR 0xB1, CHR 0xEF, CHR 0xB8, CHR 0x8F] @
     '' Duraci'' @ [CHR 0xC3, CHR 0xB3] @ ''n sesi'' @ [CHR 0xC3, CHR 0xB3] @ ''n: '' @
     fmt_0f env time_to_dedicate @ '' min''"

definition final_summary :: string where
  "final_summary =
     [CHR 0xF0, CHR 0x9F, CHR 0x8E, CHR 0x93] @ '' REVISI'' @ [CHR 0xC3, CHR 0x93] @
     ''N GENERAL FINAL''"

definition final_description :: "pyenv \<Rightarrow> nat \<Rightarrow> string" where
  "final_description env n =
     ''Sesi'' @ [CHR 0xC3, CHR 0xB3] @ ''n de integraci'' @ [CHR 0xC3, CHR 0xB3] @ ''n. '' @
     [CHR 0xC2, CHR 0xA1] @ ''Todos los libros completados!'' @ [CHR 0x0A] @
     ''Libros completados: '' @ py_str env (int n)"

text \<open>One reading-session event is emitted and the three counters move on
  (lines 262 to 279).\<close>

definition read_session :: "pyenv \<Rightarrow> (nat \<Rightarrow> datetime) \<Rightarrow> plan_input \<Rightarrow> datetime \<Rightarrow> rat \<Rightarrow>
    plan_state \<Rightarrow> plan_state" where
  "read_session env clock inp session_start_time time_to_dedicate st =
     (let book_name = title (book_schedule_list inp ! current_book_index st)
      in st\<lparr>events :=
               add_event env (clock (clock_reads st)) (events st) session_start_time
                 time_to_dedicate (reading_summary book_name)
                 (reading_description env book_name (current_book_remaining_min st)
                    time_to_dedicate)
                 (organizer_email_in inp) (organizer_name_in inp) reminders_config
                 ''Sala de estudio'' ''CONFIRMED'' False,
             clock_reads := clock_reads st + 1,
             current_book_remaining_min := current_book_remaining_min st - time_to_dedicate\<rparr>)"

text \<open>The book is entered in the ledger, its review is scheduled and the index moves
  on (lines 283 to 307).\<close>

definition complete_book :: "pyenv \<Rightarrow> (nat \<Rightarrow> datetime) \<Rightarrow> plan_input \<Rightarrow> date \<Rightarrow>
    plan_state \<Rightarrow> plan_state option" where
  "complete_book env clock inp current_date st =
     (let current_book = book_schedule_list inp ! current_book_index st;
          book_name = title current_book;
          book_hours = calculate_reading_time_hours current_book (reading_speeds inp);
          ledger = books_completed st @
            [\<lparr>Libro = book_name, Horas = py_round2 env book_hours,
              Fecha_de_finalizacion = current_date\<rparr>];
          next_review_date = current_date + 1
      in case schedule_book_review env (clock (clock_reads st)) (events st) next_review_date
                book_name book_hours (review_time_per_book_min inp) (start_time_review inp)
                (reading_weekdays inp) (organizer_email_in inp) (organizer_name_in inp)
                reminders_config of
           None \<Rightarrow> None
         | Some evs \<Rightarrow>
             Some (st\<lparr>books_completed := ledger, events := evs,
                      clock_reads := clock_reads st + 1,
                      current_book_index := current_book_index st + 1\<rparr>))"

text \<open>The final integration event (lines 315 to 327).\<close>

definition final_event :: "pyenv \<Rightarrow> (nat \<Rightarrow> datetime) \<Rightarrow> plan_input \<Rightarrow> datetime \<Rightarrow> rat \<Rightarrow>
    plan_state \<Rightarrow> plan_state" where
  "final_event env clock inp session_start_time remaining_session_time st =
     (if remaining_session_time > 0
      then st\<lparr>events :=
                 add_event env (clock (clock_reads st)) (events st) session_start_time
                   remaining_session_time final_summary
                   (final_description env (length (books_completed st)))
                   (organizer_email_in inp) (organizer_name_in inp) reminders_config
                   [] ''CONFIRMED'' True,
               clock_reads := clock_reads st + 1\<rparr>
      else st)"

text \<open>The body of the session loop (lines 251 to 329): it ends with \<open>Break\<close> where the
  source leaves the loop, and with \<open>Continue\<close> and the new values of
  \<open>remaining_session_time\<close> and \<open>session_start_time\<close> where it goes round again.\<close>

datatype loop_step = Break plan_state | Continue rat datetime plan_state

definition session_body :: "pyenv \<Rightarrow> (nat \<Rightarrow> datetime) \<Rightarrow> plan_input \<Rightarrow> date \<Rightarrow> rat \<Rightarrow> datetime \<Rightarrow>
    plan_state \<Rightarrow> loop_step option" where
  "session_body env clock inp current_date remaining_session_time session_start_time st =
     (let time_to_dedicate = min remaining_session_time (current_book_remaining_min st)
      in if time_to_dedicate \<le> 0 then Some (Break st)
         else
           (let st1 = read_session env clock inp session_start_time time_to_dedicate st
            in if current_book_remaining_min st1 \<le> 1 / 10
               then
                 (case complete_book env clock inp current_date st1 of
                    None \<Rightarrow> None
                  | Some st2 \<Rightarrow>
                      if current_book_index st2 < length (book_schedule_list inp)
                      then Some (Continue (remaining_session_time - time_to_dedicate)
                             (session_start_time + time_to_dedicate)
                             (st2\<lparr>current_book_remaining_min :=
                                calculate_reading_time_minutes
                                  (book_schedule_list inp ! current_book_index st2)
                                  (reading_speeds inp)\<rparr>))
                      else Some (Break (final_event env clock inp
                             (session_start_time + time_to_dedicate)
                             (remaining_session_time - time_to_dedicate) st2)))
               else Some (Continue (remaining_session_time - time_to_dedicate)
                      (session_start_time + time_to_dedicate) st1)))"

text \<open>The session loop of one reading day (lines 248 to 250).\<close>

function session_loop :: "pyenv \<Rightarrow> (nat \<Rightarrow> datetime) \<Rightarrow> plan_input \<Rightarrow> date \<Rightarrow> rat \<Rightarrow> datetime \<Rightarrow>
    plan_state \<Rightarrow> plan_state option" where
  "session_loop env clock inp current_date remaining_session_time session_start_time st =
     (if remaining_session_time > 0 \<and> current_book_index st < length (book_schedule_list inp)
      then
        (case session_body env clock inp current_date remaining_session_time
                session_start_time st of
           None \<Rightarrow> None
         | Some (Break st') \<Rightarrow> Some st'
         | Some (Continue remaining_session_time' session_start_time' st') \<Rightarrow>
             session_loop env clock inp current_date remaining_session_time'
               session_start_time' st')
      else Some st)"
  by pat_completeness auto
termination session_loop
  apply (relation "measures
      [\<lambda>(env, clock, inp, cd, rst, sst, st).
          length (book_schedule_list inp) - current_book_index st,
       \<lambda>(env, clock, inp, cd, rst, sst, st). if rst > 0 then 1 else 0]")
   apply simp
  apply (auto simp: session_body_def read_session_def complete_book_def Let_def min_def
      split: option.splits if_splits)
  done

declare session_loop.simps [simp del]

text \<open>What the main loop does on one date before it moves on (lines 237 to 329):
  the session loop on a reading day, nothing on another day.\<close>

definition day_step :: "pyenv \<Rightarrow> (nat \<Rightarrow> datetime) \<Rightarrow> plan_input \<Rightarrow> date \<Rightarrow> plan_state \<Rightarrow>
    plan_state option" where
  "day_step env clock inp current_date st =
     (if weekday current_date \<in> set (reading_weekdays inp)
      then session_loop env clock inp current_date
             (of_int (daily_time_total_minutes inp))
             (combine current_date (start_time_books inp)) st
      else Some st)"

text \<open>The main loop over the days (lines 236 to 358). It returns the date at which it
  stopped and the state.\<close>

function plan_loop :: "pyenv \<Rightarrow> (nat \<Rightarrow> datetime) \<Rightarrow> plan_input \<Rightarrow> date \<Rightarrow> plan_state \<Rightarrow>
    (date \<times> plan_state) option" where
  "plan_loop env clock inp current_date st =
     (if current_date \<le> end_date inp
      then
        (case day_step env clock inp current_date st of
           None \<Rightarrow> None
         | Some st1 \<Rightarrow>
             if current_book_index st1 \<ge> length (book_schedule_list inp)
             then Some (current_date + 1, st1\<lparr>notices := notices st1 @ [current_date + 1]\<rparr>)
             else plan_loop env clock inp (current_date + 1) st1)
      else Some (current_date, st))"
  by pat_completeness auto
termination
  by (relation "measure (\<lambda>(env, clock, inp, cd, st). nat (end_date inp + 1 - cd))") auto

declare plan_loop.simps [simp del]

text \<open>The variables before the main loop (lines 219 to 233); only called with a
  non-empty book list, whose first book is loaded.\<close>

definition initial_state :: "plan_input \<Rightarrow> plan_state" where
  "initial_state inp =
     \<lparr>events = [], books_completed = [], current_book_index = 0,
      current_book_remaining_min =
        calculate_reading_time_minutes (book_schedule_list inp ! 0) (reading_speeds inp),
      clock_reads = 0, notices = []\<rparr>"

definition create_reading_plan :: "pyenv \<Rightarrow> (nat \<Rightarrow> datetime) \<Rightarrow> plan_input \<Rightarrow> plan_result option" where
  "create_reading_plan env clock inp =
     (if book_schedule_list inp = []
      then Some \<lparr>res_events = [], res_books_completed = [],
                 res_stats = \<lparr>total_events = 0, books_completed_count = 0,
                               total_book_hours = 0, total_days = None\<rparr>,
                 res_notices = []\<rparr>
      else
        (let total_book_hours_calc =
               sum_list (map (\<lambda>book. calculate_reading_time_hours book (reading_speeds inp))
                           (book_schedule_list inp))
         in case plan_loop env clock inp (start_date inp) (initial_state inp) of
              None \<Rightarrow> None
            | Some (current_date, st) \<Rightarrow>
                Some \<lparr>res_events = events st,
                      res_books_completed = books_completed st,
                      res_stats =
                        \<lparr>total_events = length (events st),
                         books_completed_count = length (books_completed st),
                         total_book_hours = total_book_hours_calc,
                         total_days = Some \<bar>start_date inp - current_date\<bar>\<rparr>,
                      res_notices = notices st\<rparr>))"

subsection \<open>Notions used in the statements\<close>

text \<open>An event, a state and a result with the creation timestamp blanked.\<close>

definition without_dtstamp :: "event \<Rightarrow> event" where
  "without_dtstamp e = e\<lparr>dtstamp := 0\<rparr>"

definition state_without_dtstamp :: "plan_state \<Rightarrow> plan_state" where
  "state_without_dtstamp st = st\<lparr>events := map without_dtstamp (events st)\<rparr>"

definition step_without_dtstamp :: "loop_step \<Rightarrow> loop_step" where
  "step_without_dtstamp r =
     (case r of Break st \<Rightarrow> Break (state_without_dtstamp st)
      | Continue rst sst st \<Rightarrow> Continue rst sst (state_without_dtstamp st))"

definition result_without_dtstamp :: "plan_result \<Rightarrow> plan_result" where
  "result_without_dtstamp r = r\<lparr>res_events := map without_dtstamp (res_events r)\<rparr>"

text \<open>The events that \<open>schedule_book_review\<close> emits are the ones located at the
  review location; the others are the reading sessions and the final integration
  event.\<close>

definition is_book_review :: "event \<Rightarrow> bool" where
  "is_book_review e = (location e = escape_ics_text ''Espacio de estudio tranquilo'')"

definition sessions_and_final :: "event list \<Rightarrow> event list" where
  "sessions_and_final evs = filter (\<lambda>e. \<not> is_book_review e) evs"

text \<open>\<open>e\<close> starts before \<open>f\<close> and is over when \<open>f\<close> starts.\<close>

definition before :: "event \<Rightarrow> event \<Rightarrow> bool" where
  "before e f = (dtstart e < dtstart f \<and> dtend e \<le> dtstart f)"

text \<open>The sessions and the final event are in order, each is over by \<open>bound\<close>, and
  no reading session is located at the review location.\<close>

definition ordered_until :: "rat \<Rightarrow> event list \<Rightarrow> bool" where
  "ordered_until bound evs =
     (sorted_wrt before (sessions_and_final evs) \<and>
      (\<forall>e\<in>set (sessions_and_final evs). dtstart e < dtend e \<and> dtend e \<le> bound) \<and>
      (\<forall>e\<in>set evs. priority e = 5 \<longrightarrow> \<not> is_book_review e))"

text \<open>The account of the session minutes, book by book, read off the event list. The
  engine emits the sessions of a book while it is the current book, and one book review
  when the book completes and the next one becomes current. So the reading sessions
  (priority 5) before the first book review are those of the first book, the ones
  between the first and the second review those of the second book, and so on. The
  account holds the sums of the closed books and the sum of the open one; the duration
  of a session is its end minus its start.\<close>

definition account_step :: "rat list \<times> rat \<Rightarrow> event \<Rightarrow> rat list \<times> rat" where
  "account_step acc e =
     (if is_book_review e then (fst acc @ [snd acc], 0)
      else if priority e = 5 then (fst acc, snd acc + (dtend e - dtstart e))
      else acc)"

definition session_account :: "event list \<Rightarrow> rat list \<times> rat" where
  "session_account evs = foldl account_step ([], 0) evs"

text \<open>The minutes of the sessions emitted for the book at index \<open>j\<close> of the list, for
  \<open>j\<close> up to the number of book reviews in the list.\<close>

definition minutes_of_book :: "nat \<Rightarrow> event list \<Rightarrow> rat" where
  "minutes_of_book j evs = (fst (session_account evs) @ [snd (session_account evs)]) ! j"


subsection \<open>Inputs for the examples\<close>

text \<open>An environment and a clock for the concrete runs below: the formatted numbers
  are empty, the hash is the length of the text, the clock stands still.\<close>

definition example_env :: pyenv where
  "example_env =
     \<lparr>py_hash = (\<lambda>s. int (length s)), fmt_0f = (\<lambda>x. []), fmt_2f = (\<lambda>x. []),
      py_str = (\<lambda>n. []), py_round2 = (\<lambda>x. x)\<rparr>"

definition example_clock :: "nat \<Rightarrow> datetime" where
  "example_clock k = 0"

definition example_book :: Book where
  "example_book = \<lparr>title = ''Libro'', pages = 10, category = ''D''\<rparr>"

text \<open>One book of 20 minutes, 15 minutes a day from Monday 2025-01-06 (ordinal 739257),
  Monday to Saturday, reading at 10:00 and reviews at 19:00.\<close>

definition example_input :: plan_input where
  "example_input =
     \<lparr>book_schedule_list = [example_book], start_date = 739257, end_date = 739377,
      daily_time_total_minutes = 15, review_time_per_book_min = 60,
      reading_speeds = [''D'' \<mapsto> 2], reading_weekdays = [0, 1, 2, 3, 4, 5],
      start_time_books = 600, start_time_review = 1140,
      organizer_email_in = ''a@b'', organizer_name_in = ''E''\<rparr>"



text \<open>The example with its book twice in the list: two books of the same title.\<close>

definition twin_input :: plan_input where
  "twin_input = example_input\<lparr>book_schedule_list := [example_book, example_book]\<rparr>"

section \<open>Properties\<close>

subsection \<open>Escaping\<close>

lemma replace_char_Nil: "replace_char c r [] = []"
  by (simp add: replace_char_def)

lemma replace_char_Cons:
  "replace_char c r (x # xs) = (if x = c then r else [x]) @ replace_char c r xs"
  by (simp add: replace_char_def)

lemma replace_char_append:
  "replace_char c r (xs @ ys) = replace_char c r xs @ replace_char c r ys"
  by (simp add: replace_char_def)

lemma escape_ics_text_Nil: "escape_ics_text [] = []"
  by (simp add: escape_ics_text_def replace_char_Nil)

lemma escape_ics_text_Cons: "escape_ics_text (c # s) = escape_char c @ escape_ics_text s"
  by (auto simp: escape_ics_text_def escape_char_def replace_char_Cons replace_char_append
      replace_char_Nil)

lemma escape_ics_text_concat: "escape_ics_text s = concat (map escape_char s)"
  by (induction s) (simp_all add: escape_ics_text_Nil escape_ics_text_Cons)

lemma unescape_escape_char:
  "unescape_ics_text (escape_char c @ t) = c # unescape_ics_text t"
  by (cases t) (auto simp: escape_char_def)

lemma unescape_escape: "unescape_ics_text (escape_ics_text s) = s"
  by (induction s) (simp_all add: escape_ics_text_Nil escape_ics_text_Cons unescape_escape_char)

text \<open>
  C9. \<open>escape_ics_text\<close>, the chain of four replacements with the backslash first,
  replaces exactly the backslash, the comma, the semicolon and the newline by their
  escaped forms and leaves every other character alone, and unescaping the result gives
  the text back, for every text.
\<close>

theorem escape_ics_text_round_trip:
  "escape_ics_text s = concat (map escape_char s) \<and> unescape_ics_text (escape_ics_text s) = s"
  using escape_ics_text_concat unescape_escape by blast

theorem escape_ics_text_round_trip_witness:
  "escape_ics_text [CHR ''a'', CHR 0x5C, CHR '','', CHR '';'', CHR 0x0A, CHR ''n''] =
     concat (map escape_char [CHR ''a'', CHR 0x5C, CHR '','', CHR '';'', CHR 0x0A, CHR ''n'']) \<and>
   unescape_ics_text
     (escape_ics_text [CHR ''a'', CHR 0x5C, CHR '','', CHR '';'', CHR 0x0A, CHR ''n'']) =
     [CHR ''a'', CHR 0x5C, CHR '','', CHR '';'', CHR 0x0A, CHR ''n'']"
  by (rule escape_ics_text_round_trip)

subsection \<open>The review scheduler\<close>

lemma weekday_range: "0 \<le> weekday d \<and> weekday d < 7"
  by (simp add: weekday_def)

lemma weekday_hit:
  assumes "0 \<le> w" "w < 7"
  shows "weekday (d + int (nat ((w - weekday d) mod 7))) = w"
proof -
  define a where "a = d + 6"
  have "(a + (w - a mod 7) mod 7) mod 7 = (a + (w - a mod 7)) mod 7"
    by (rule mod_add_right_eq)
  also have "a + (w - a mod 7) = w + 7 * (a div 7)"
    by (simp add: minus_mod_eq_mult_div algebra_simps)
  also have "(w + 7 * (a div 7)) mod 7 = w mod 7"
    by simp
  finally have m: "(a + (w - a mod 7) mod 7) mod 7 = w" using assms by simp
  have e: "d + (w - a mod 7) mod 7 + 6 = a + (w - a mod 7) mod 7"
    by (simp add: a_def)
  have "weekday (d + (w - weekday d) mod 7) = w"
    by (simp only: weekday_def a_def[symmetric] e m)
  then show ?thesis by simp
qed

lemma review_date_loop_finds:
  "weekday (d + int k) \<in> set wds \<Longrightarrow>
   \<exists>rd. review_date_loop wds d = Some rd \<and> d \<le> rd \<and> rd \<le> d + int k \<and> weekday rd \<in> set wds \<and>
        (\<forall>x. d \<le> x \<and> x < rd \<longrightarrow> weekday x \<notin> set wds)"
proof (induction k arbitrary: d)
  case 0
  then show ?case by (subst review_date_loop.simps) auto
next
  case (Suc k)
  show ?case
  proof (cases "weekday d \<in> set wds")
    case True
    then show ?thesis by (subst review_date_loop.simps) auto
  next
    case False
    from Suc.prems have "weekday ((d + 1) + int k) \<in> set wds" by (simp add: ac_simps)
    from Suc.IH[OF this] obtain rd where rd: "review_date_loop wds (d + 1) = Some rd"
      "d + 1 \<le> rd" "rd \<le> d + 1 + int k" "weekday rd \<in> set wds"
      "\<forall>x. d + 1 \<le> x \<and> x < rd \<longrightarrow> weekday x \<notin> set wds" by blast
    have "review_date_loop wds d = Some rd"
      using False rd(1) by (subst review_date_loop.simps) simp
    moreover have "\<forall>x. d \<le> x \<and> x < rd \<longrightarrow> weekday x \<notin> set wds"
    proof (intro allI impI)
      fix x assume "d \<le> x \<and> x < rd"
      then show "weekday x \<notin> set wds" using False rd(5) by (cases "x = d") auto
    qed
    ultimately show ?thesis using rd by auto
  qed
qed

lemma review_date_loop_total:
  assumes "w \<in> set wds" "0 \<le> w" "w < 7"
  shows "\<exists>rd. review_date_loop wds d = Some rd \<and> d \<le> rd \<and> rd \<le> d + 6 \<and> weekday rd \<in> set wds \<and>
        (\<forall>x. d \<le> x \<and> x < rd \<longrightarrow> weekday x \<notin> set wds)"
proof -
  let ?k = "nat ((w - weekday d) mod 7)"
  have "weekday (d + int ?k) \<in> set wds" using weekday_hit[OF assms(2,3)] assms(1) by simp
  from review_date_loop_finds[OF this] obtain rd where rd: "review_date_loop wds d = Some rd"
     "d \<le> rd" "rd \<le> d + int ?k" "weekday rd \<in> set wds"
      "\<forall>x. d \<le> x \<and> x < rd \<longrightarrow> weekday x \<notin> set wds" by blast
  have "int ?k \<le> 6" by simp
  then show ?thesis using rd by auto
qed

text \<open>
  C7. For every candidate date and every non-empty set of weekdays (indices 0 to 6),
  \<open>schedule_book_review\<close> returns, having appended exactly one event; the event starts
  at the review start time of the earliest date from the candidate date on whose weekday
  is in the set, which is the candidate date itself when its weekday is in the set.
\<close>

theorem schedule_book_review_earliest:
  assumes "wds \<noteq> []" and "set wds \<subseteq> {0..6}"
  shows "\<exists>rd e. schedule_book_review env now evs review_date book_name book_hours rtm
             srt wds org_email org_name rc = Some (evs @ [e]) \<and>
           dtstart e = combine rd srt \<and>
           review_date \<le> rd \<and> weekday rd \<in> set wds \<and>
           (\<forall>d. review_date \<le> d \<and> d < rd \<longrightarrow> weekday d \<notin> set wds) \<and>
           (weekday review_date \<in> set wds \<longrightarrow> rd = review_date)"
proof -
  from assms obtain w where w: "w \<in> set wds" "0 \<le> w" "w < 7"
    by (cases wds) force+
  from review_date_loop_total[OF w, of review_date] obtain rd where
    rd: "review_date_loop wds review_date = Some rd" "review_date \<le> rd" "weekday rd \<in> set wds"
      "\<forall>x. review_date \<le> x \<and> x < rd \<longrightarrow> weekday x \<notin> set wds" by blast
  have "weekday review_date \<in> set wds \<longrightarrow> rd = review_date"
    using rd(2,4) by (metis order_le_less order_refl)
  have "schedule_book_review env now evs review_date book_name book_hours rtm
             srt wds org_email org_name rc = Some (evs @ [last (add_event env now evs (combine rd srt) (of_int rtm)
                (review_summary book_name) (review_description env book_name book_hours rtm)
                org_email org_name rc ''Espacio de estudio tranquilo'' ''CONFIRMED'' True)])"
    using rd(1) by (simp add: schedule_book_review_def add_event_def)
  moreover have "dtstart (last (add_event env now evs (combine rd srt) (of_int rtm)
                (review_summary book_name) (review_description env book_name book_hours rtm)
                org_email org_name rc ''Espacio de estudio tranquilo'' ''CONFIRMED'' True)) = combine rd srt"
    by (simp add: add_event_def new_event_def Let_def format_ics_datetime_def)
  ultimately show ?thesis using rd(2,3,4) \<open>weekday review_date \<in> set wds \<longrightarrow> rd = review_date\<close>
    by blast
qed

theorem schedule_book_review_earliest_witness:
  "[0, 2] \<noteq> ([] :: int list) \<and> set [0, 2] \<subseteq> {0..6 :: int} \<and>
   (\<exists>rd e. schedule_book_review example_env 0 [] 739258 ''A'' 1 60 1140 [0, 2] ''a@b'' ''E''
              reminders_config = Some ([] @ [e]) \<and>
           dtstart e = combine rd 1140 \<and>
           739258 \<le> rd \<and> weekday rd \<in> set [0, 2] \<and>
           (\<forall>d. 739258 \<le> d \<and> d < rd \<longrightarrow> weekday d \<notin> set [0, 2]) \<and>
           (weekday 739258 \<in> set [0, 2] \<longrightarrow> rd = 739258))"
  using schedule_book_review_earliest [of "[0, 2]" example_env 0 "[]" 739258 "''A''" 1 60 1140
      "''a@b''" "''E''" reminders_config]
  by simp

subsection \<open>The empty book list\<close>

text \<open>
  C8. With an empty book list \<open>create_reading_plan\<close> returns at once: no events, an
  empty ledger, the statistics \<open>total_events = 0\<close>, \<open>books_completed_count = 0\<close>,
  \<open>total_book_hours = 0\<close> (and no \<open>total_days\<close>), no notice shown; the result does not
  depend on the dates, the clock or any other argument.
\<close>

theorem create_reading_plan_empty:
  "create_reading_plan env clock (inp\<lparr>book_schedule_list := []\<rparr>) =
     Some \<lparr>res_events = [], res_books_completed = [],
           res_stats = \<lparr>total_events = 0, books_completed_count = 0,
                         total_book_hours = 0, total_days = None\<rparr>,
           res_notices = []\<rparr>"
  by (simp add: create_reading_plan_def initial_state_def)

theorem create_reading_plan_empty_witness:
  "create_reading_plan example_env example_clock
     \<lparr>book_schedule_list = [], start_date = 739257, end_date = 739377,
      daily_time_total_minutes = 120, review_time_per_book_min = 60,
      reading_speeds = [''D'' \<mapsto> 2], reading_weekdays = [0, 1, 2, 3, 4, 5],
      start_time_books = 600, start_time_review = 1140,
      organizer_email_in = ''a@b'', organizer_name_in = ''E''\<rparr> =
     Some \<lparr>res_events = [], res_books_completed = [],
           res_stats = \<lparr>total_events = 0, books_completed_count = 0,
                         total_book_hours = 0, total_days = None\<rparr>,
           res_notices = []\<rparr>"
  using create_reading_plan_empty [of example_env example_clock
     "\<lparr>book_schedule_list = [], start_date = 739257, end_date = 739377,
      daily_time_total_minutes = 120, review_time_per_book_min = 60,
      reading_speeds = [''D'' \<mapsto> 2], reading_weekdays = [0, 1, 2, 3, 4, 5],
      start_time_books = 600, start_time_review = 1140,
      organizer_email_in = ''a@b'', organizer_name_in = ''E''\<rparr>"]
  by simp

subsection \<open>The loops: results, rules for invariants\<close>

lemma new_event_sel [simp]:
  "dtstart (new_event env now s m sm ds oe on rc loc stt rv) = s"
  "dtend (new_event env now s m sm ds oe on rc loc stt rv) = s + m"
  "dtstamp (new_event env now s m sm ds oe on rc loc stt rv) = now"
  "summary (new_event env now s m sm ds oe on rc loc stt rv) = escape_ics_text sm"
  "uid (new_event env now s m sm ds oe on rc loc stt rv) = get_ics_uid env s sm"
  "priority (new_event env now s m sm ds oe on rc loc stt rv) = (if rv then 3 else 5)"
  by (simp_all add: new_event_def Let_def format_ics_datetime_def)

lemma complete_book_Some:
  assumes "weekday cd \<in> set (reading_weekdays inp)"
  shows "\<exists>rd. review_date_loop (reading_weekdays inp) (cd + 1) = Some rd \<and>
     complete_book env clock inp cd st =
       Some (st\<lparr>books_completed := books_completed st @
                 [\<lparr>Libro = title (book_schedule_list inp ! current_book_index st),
                   Horas = py_round2 env (calculate_reading_time_hours
                       (book_schedule_list inp ! current_book_index st) (reading_speeds inp)),
                   Fecha_de_finalizacion = cd\<rparr>],
               events := add_event env (clock (clock_reads st)) (events st)
                 (combine rd (start_time_review inp)) (of_int (review_time_per_book_min inp))
                 (review_summary (title (book_schedule_list inp ! current_book_index st)))
                 (review_description env (title (book_schedule_list inp ! current_book_index st))
                    (calculate_reading_time_hours
                       (book_schedule_list inp ! current_book_index st) (reading_speeds inp))
                    (review_time_per_book_min inp))
                 (organizer_email_in inp) (organizer_name_in inp) reminders_config
                 ''Espacio de estudio tranquilo'' ''CONFIRMED'' True,
               clock_reads := clock_reads st + 1,
               current_book_index := current_book_index st + 1\<rparr>)"
proof -
  have "0 \<le> weekday cd" "weekday cd < 7" using weekday_range by auto
  from review_date_loop_total[OF assms this, of "cd + 1"]
  obtain rd where "review_date_loop (reading_weekdays inp) (cd + 1) = Some rd" by blast
  then show ?thesis
    by (simp add: complete_book_def schedule_book_review_def Let_def)
qed

lemma complete_book_SomeD:
  assumes "complete_book env clock inp cd st = Some st2"
  shows "\<exists>rd. review_date_loop (reading_weekdays inp) (cd + 1) = Some rd \<and>
     st2 = st\<lparr>books_completed := books_completed st @
                 [\<lparr>Libro = title (book_schedule_list inp ! current_book_index st),
                   Horas = py_round2 env (calculate_reading_time_hours
                       (book_schedule_list inp ! current_book_index st) (reading_speeds inp)),
                   Fecha_de_finalizacion = cd\<rparr>],
               events := events st @ [new_event env (clock (clock_reads st))
                 (combine rd (start_time_review inp)) (of_int (review_time_per_book_min inp))
                 (review_summary (title (book_schedule_list inp ! current_book_index st)))
                 (review_description env (title (book_schedule_list inp ! current_book_index st))
                    (calculate_reading_time_hours
                       (book_schedule_list inp ! current_book_index st) (reading_speeds inp))
                    (review_time_per_book_min inp))
                 (organizer_email_in inp) (organizer_name_in inp) reminders_config
                 ''Espacio de estudio tranquilo'' ''CONFIRMED'' True],
               clock_reads := clock_reads st + 1,
               current_book_index := current_book_index st + 1\<rparr>"
  using assms
  by (auto simp: complete_book_def schedule_book_review_def add_event_def Let_def
      split: option.splits)

lemma session_body_cases:
  assumes "session_body env clock inp cd rst sst st = Some r"
  obtains
    (idle) "min rst (current_book_remaining_min st) \<le> 0" "r = Break st"
  | (partial) "0 < min rst (current_book_remaining_min st)"
      "current_book_remaining_min st - min rst (current_book_remaining_min st) > 1 / 10"
      "r = Continue (rst - min rst (current_book_remaining_min st))
             (sst + min rst (current_book_remaining_min st))
             (read_session env clock inp sst (min rst (current_book_remaining_min st)) st)"
  | (next_book) st2 where "0 < min rst (current_book_remaining_min st)"
      "current_book_remaining_min st - min rst (current_book_remaining_min st) \<le> 1 / 10"
      "complete_book env clock inp cd
         (read_session env clock inp sst (min rst (current_book_remaining_min st)) st) = Some st2"
      "current_book_index st2 < length (book_schedule_list inp)"
      "r = Continue (rst - min rst (current_book_remaining_min st))
             (sst + min rst (current_book_remaining_min st))
             (st2\<lparr>current_book_remaining_min :=
                   calculate_reading_time_minutes
                     (book_schedule_list inp ! current_book_index st2) (reading_speeds inp)\<rparr>)"
  | (last_book) st2 where "0 < min rst (current_book_remaining_min st)"
      "current_book_remaining_min st - min rst (current_book_remaining_min st) \<le> 1 / 10"
      "complete_book env clock inp cd
         (read_session env clock inp sst (min rst (current_book_remaining_min st)) st) = Some st2"
      "\<not> current_book_index st2 < length (book_schedule_list inp)"
      "r = Break (final_event env clock inp (sst + min rst (current_book_remaining_min st))
             (rst - min rst (current_book_remaining_min st)) st2)"
proof -
  define ttd where "ttd = min rst (current_book_remaining_min st)"
  define st1 where "st1 = read_session env clock inp sst ttd st"
  have rem: "current_book_remaining_min st1 = current_book_remaining_min st - ttd"
    by (simp add: st1_def read_session_def Let_def)
  have sb: "session_body env clock inp cd rst sst st =
     (if ttd \<le> 0 then Some (Break st)
      else if current_book_remaining_min st - ttd \<le> 1 / 10
        then (case complete_book env clock inp cd st1 of
                None \<Rightarrow> None
              | Some st2 \<Rightarrow>
                  if current_book_index st2 < length (book_schedule_list inp)
                  then Some (Continue (rst - ttd) (sst + ttd)
                         (st2\<lparr>current_book_remaining_min :=
                            calculate_reading_time_minutes
                              (book_schedule_list inp ! current_book_index st2)
                              (reading_speeds inp)\<rparr>))
                  else Some (Break (final_event env clock inp (sst + ttd) (rst - ttd) st2)))
        else Some (Continue (rst - ttd) (sst + ttd) st1))"
    unfolding session_body_def Let_def ttd_def[symmetric] st1_def[symmetric] rem ..
  show ?thesis
  proof (cases "ttd \<le> 0")
    case True
    have "r = Break st" using assms True unfolding sb by simp
    then show ?thesis by (rule idle[OF True[unfolded ttd_def]])
  next
    case pos: False
    show ?thesis
    proof (cases "current_book_remaining_min st - ttd \<le> 1 / 10")
      case False
      have "r = Continue (rst - ttd) (sst + ttd) st1"
        using assms pos False unfolding sb by simp
      from this[unfolded st1_def ttd_def] show ?thesis
        by (rule partial[OF pos[unfolded ttd_def not_le] False[unfolded ttd_def not_le]])
    next
      case True
      then obtain st2 where st2: "complete_book env clock inp cd st1 = Some st2"
        using assms pos unfolding sb by (auto split: option.splits)
      show ?thesis
      proof (cases "current_book_index st2 < length (book_schedule_list inp)")
        case more: True
        have "r = Continue (rst - ttd) (sst + ttd)
                         (st2\<lparr>current_book_remaining_min :=
                            calculate_reading_time_minutes
                              (book_schedule_list inp ! current_book_index st2)
                              (reading_speeds inp)\<rparr>)"
          using assms pos True st2 more unfolding sb by simp
        from this[unfolded ttd_def] show ?thesis
          by (rule next_book[OF pos[unfolded ttd_def not_le] True[unfolded ttd_def]
                st2[unfolded st1_def ttd_def] more])
      next
        case nomore: False
        have "r = Break (final_event env clock inp (sst + ttd) (rst - ttd) st2)"
          using assms pos True st2 nomore unfolding sb by simp
        from this[unfolded ttd_def] show ?thesis
          by (rule last_book[OF pos[unfolded ttd_def not_le] True[unfolded ttd_def]
                st2[unfolded st1_def ttd_def] nomore])
      qed
    qed
  qed
qed

lemma session_body_Some:
  assumes "weekday cd \<in> set (reading_weekdays inp)"
  shows "\<exists>r. session_body env clock inp cd rst sst st = Some r"
proof -
  obtain st2 where "complete_book env clock inp cd
      (read_session env clock inp sst (min rst (current_book_remaining_min st)) st) = Some st2"
    using complete_book_Some[OF assms] by blast
  then show ?thesis by (simp add: session_body_def Let_def)
qed

lemma session_loop_Some:
  assumes "weekday cd \<in> set (reading_weekdays inp)"
  shows "\<exists>st'. session_loop env clock inp cd rst sst st = Some st'"
  using assms
proof (induction env clock inp cd rst sst st rule: session_loop.induct)
  case (1 env clock inp cd rst sst st)
  show ?case
  proof (cases "0 < rst \<and> current_book_index st < length (book_schedule_list inp)")
    case False
    then show ?thesis by (subst session_loop.simps) auto
  next
    case True
    obtain r where r: "session_body env clock inp cd rst sst st = Some r"
      using session_body_Some[OF "1.prems"] by blast
    show ?thesis
    proof (cases r)
      case (Break st')
      then show ?thesis using True r by (subst session_loop.simps) simp
    next
      case (Continue rst' sst' st')
      from "1.IH"[OF True r[unfolded Continue] refl "1.prems"]
      show ?thesis using True r Continue by (subst session_loop.simps) simp
    qed
  qed
qed

lemma session_loop_rule:
  assumes run: "session_loop env clock inp cd rst sst st = Some st'"
    and init: "I rst sst st"
    and brk: "\<And>rst sst st st'. I rst sst st \<Longrightarrow> 0 < rst \<Longrightarrow>
         current_book_index st < length (book_schedule_list inp) \<Longrightarrow>
         session_body env clock inp cd rst sst st = Some (Break st') \<Longrightarrow> Q st'"
    and cont: "\<And>rst sst st rst' sst' st'. I rst sst st \<Longrightarrow> 0 < rst \<Longrightarrow>
         current_book_index st < length (book_schedule_list inp) \<Longrightarrow>
         session_body env clock inp cd rst sst st = Some (Continue rst' sst' st') \<Longrightarrow>
         I rst' sst' st'"
    and fin: "\<And>rst sst st. I rst sst st \<Longrightarrow>
         \<not> (0 < rst \<and> current_book_index st < length (book_schedule_list inp)) \<Longrightarrow> Q st"
  shows "Q st'"
  using assms
proof (induction env clock inp cd rst sst st rule: session_loop.induct)
  case (1 env clock inp cd rst sst st)
  note run = "1.prems"(1) and init = "1.prems"(2) and brk = "1.prems"(3)
    and cont = "1.prems"(4) and fin = "1.prems"(5)
  show ?case
  proof (cases "0 < rst \<and> current_book_index st < length (book_schedule_list inp)")
    case False
    then have "st' = st" using run by (subst (asm) session_loop.simps) auto
    then show ?thesis using fin[OF init False] by simp
  next
    case True
    then obtain r where r: "session_body env clock inp cd rst sst st = Some r"
      using run by (subst (asm) session_loop.simps) (auto split: option.splits)
    show ?thesis
    proof (cases r)
      case (Break st'')
      then have "st' = st''" using run True r by (subst (asm) session_loop.simps) simp
      then show ?thesis using brk[OF init _ _ r[unfolded Break]] True by simp
    next
      case (Continue rst' sst' st'')
      have run': "session_loop env clock inp cd rst' sst' st'' = Some st'"
        using run True r Continue by (subst (asm) session_loop.simps) simp
      have "I rst' sst' st''" using cont[OF init _ _ r[unfolded Continue]] True by simp
      from "1.IH"[OF True r[unfolded Continue] refl run' this brk cont fin] show ?thesis .
    qed
  qed
qed

lemma day_step_Some: "\<exists>st1. day_step env clock inp cd st = Some st1"
  using session_loop_Some by (auto simp: day_step_def)

lemma plan_loop_Some: "\<exists>r. plan_loop env clock inp cd st = Some r"
proof (induction env clock inp cd st rule: plan_loop.induct)
  case (1 env clock inp cd st)
  obtain st1 where st1: "day_step env clock inp cd st = Some st1"
    using day_step_Some by blast
  show ?case
  proof (cases "cd \<le> end_date inp \<and> \<not> length (book_schedule_list inp) \<le> current_book_index st1")
    case True
    from "1.IH"[OF _ st1] True
    show ?thesis using st1 by (subst plan_loop.simps) simp
  next
    case False
    then show ?thesis using st1 by (subst plan_loop.simps) auto
  qed
qed

lemma plan_loop_rule:
  assumes run: "plan_loop env clock inp cd st = Some (cd', st')"
    and init: "I cd st"
    and day: "\<And>cd st st1. I cd st \<Longrightarrow> cd \<le> end_date inp \<Longrightarrow>
         day_step env clock inp cd st = Some st1 \<Longrightarrow> I (cd + 1) st1"
    and brk: "\<And>cd st. I cd st \<Longrightarrow> length (book_schedule_list inp) \<le> current_book_index st \<Longrightarrow>
         Q cd (st\<lparr>notices := notices st @ [cd]\<rparr>)"
    and fin: "\<And>cd st. I cd st \<Longrightarrow> \<not> cd \<le> end_date inp \<Longrightarrow> Q cd st"
  shows "Q cd' st'"
  using assms
proof (induction env clock inp cd st rule: plan_loop.induct)
  case (1 env clock inp cd st)
  note run = "1.prems"(1) and init = "1.prems"(2) and day = "1.prems"(3)
    and brk = "1.prems"(4) and fin = "1.prems"(5)
  show ?case
  proof (cases "cd \<le> end_date inp")
    case False
    then have "cd' = cd \<and> st' = st" using run by (subst (asm) plan_loop.simps) simp
    then show ?thesis using fin[OF init False] by simp
  next
    case True
    obtain st1 where st1: "day_step env clock inp cd st = Some st1"
      using day_step_Some by blast
    have I1: "I (cd + 1) st1" using day[OF init True st1] .
    show ?thesis
    proof (cases "length (book_schedule_list inp) \<le> current_book_index st1")
      case finished: True
      then have "cd' = cd + 1 \<and> st' = st1\<lparr>notices := notices st1 @ [cd + 1]\<rparr>"
        using run True st1 by (subst (asm) plan_loop.simps) auto
      then show ?thesis using brk[OF I1 finished] by simp
    next
      case more: False
      have run': "plan_loop env clock inp (cd + 1) st1 = Some (cd', st')"
        using run True st1 more by (subst (asm) plan_loop.simps) simp
      from "1.IH"[OF True st1 more run' I1 day brk fin]
      show ?thesis .
    qed
  qed
qed

lemma session_body_events_all:
  assumes body: "session_body env clock inp cd rst sst st = Some r"
    and old: "\<forall>e\<in>set (events st). \<Phi> e"
    and new: "\<And>now s m sm ds loc stt rv.
       0 < m \<or> m = of_int (review_time_per_book_min inp) \<Longrightarrow>
       \<Phi> (new_event env now s m sm ds (organizer_email_in inp) (organizer_name_in inp)
            reminders_config loc stt rv)"
  shows "case r of Break st' \<Rightarrow> \<forall>e\<in>set (events st'). \<Phi> e
         | Continue rst' sst' st' \<Rightarrow> \<forall>e\<in>set (events st'). \<Phi> e"
proof -
  have new_pos: "\<And>now s m sm ds loc stt rv. 0 < m \<Longrightarrow>
       \<Phi> (new_event env now s m sm ds (organizer_email_in inp) (organizer_name_in inp)
            reminders_config loc stt rv)"
    using new by blast
  have new_rev: "\<And>now s sm ds loc stt rv.
       \<Phi> (new_event env now s (of_int (review_time_per_book_min inp)) sm ds
            (organizer_email_in inp) (organizer_name_in inp) reminders_config loc stt rv)"
    using new by blast
  from body show ?thesis
  proof (cases rule: session_body_cases)
  case idle
  then show ?thesis using old by simp
next
  case partial
  then show ?thesis using old new_pos
    by (simp add: read_session_def add_event_def Let_def)
next
  case (next_book st2)
  from complete_book_SomeD[OF next_book(3)] have
    "\<forall>e\<in>set (events st2). \<Phi> e"
    using old new_pos new_rev next_book(1)
    by (auto simp: read_session_def add_event_def Let_def)
  then show ?thesis using next_book by simp
next
  case (last_book st2)
  from complete_book_SomeD[OF last_book(3)] have
    "\<forall>e\<in>set (events st2). \<Phi> e"
    using old new_pos new_rev last_book(1)
    by (auto simp: read_session_def add_event_def Let_def)
  then show ?thesis using last_book new_pos
    by (simp add: final_event_def add_event_def)
qed
qed

lemma session_loop_events_all:
  assumes run: "session_loop env clock inp cd rst sst st = Some st'"
    and old: "\<forall>e\<in>set (events st). \<Phi> e"
    and new: "\<And>now s m sm ds loc stt rv.
       0 < m \<or> m = of_int (review_time_per_book_min inp) \<Longrightarrow>
       \<Phi> (new_event env now s m sm ds (organizer_email_in inp) (organizer_name_in inp)
            reminders_config loc stt rv)"
  shows "\<forall>e\<in>set (events st'). \<Phi> e"
proof (rule session_loop_rule[OF run, where I = "\<lambda>rst sst st. \<forall>e\<in>set (events st). \<Phi> e"])
  show "\<forall>e\<in>set (events st). \<Phi> e" by (rule old)
next
  fix rst sst st st'
  assume "\<forall>e\<in>set (events st). \<Phi> e" "session_body env clock inp cd rst sst st = Some (Break st')"
  from session_body_events_all[OF this(2) this(1) new]
  show "\<forall>e\<in>set (events st'). \<Phi> e" by simp
next
  fix rst sst st rst' sst' st'
  assume "\<forall>e\<in>set (events st). \<Phi> e"
    "session_body env clock inp cd rst sst st = Some (Continue rst' sst' st')"
  from session_body_events_all[OF this(2) this(1) new]
  show "\<forall>e\<in>set (events st'). \<Phi> e" by simp
qed

lemma plan_loop_events_all:
  assumes run: "plan_loop env clock inp cd st = Some (cd', st')"
    and old: "\<forall>e\<in>set (events st). \<Phi> e"
    and new: "\<And>now s m sm ds loc stt rv.
       0 < m \<or> m = of_int (review_time_per_book_min inp) \<Longrightarrow>
       \<Phi> (new_event env now s m sm ds (organizer_email_in inp) (organizer_name_in inp)
            reminders_config loc stt rv)"
  shows "\<forall>e\<in>set (events st'). \<Phi> e"
proof (rule plan_loop_rule[OF run, where I = "\<lambda>cd st. \<forall>e\<in>set (events st). \<Phi> e"
      and Q = "\<lambda>cd st. \<forall>e\<in>set (events st). \<Phi> e"])
  show "\<forall>e\<in>set (events st). \<Phi> e" by (rule old)
next
  fix cd st st1
  assume a: "\<forall>e\<in>set (events st). \<Phi> e" "day_step env clock inp cd st = Some st1"
  show "\<forall>e\<in>set (events st1). \<Phi> e"
  proof (cases "weekday cd \<in> set (reading_weekdays inp)")
    case True
    then have "session_loop env clock inp cd (of_int (daily_time_total_minutes inp))
        (combine cd (start_time_books inp)) st = Some st1"
      using a(2) by (simp add: day_step_def)
    from session_loop_events_all[OF this a(1) new] show ?thesis .
  next
    case False
    then show ?thesis using a by (simp add: day_step_def)
  qed
qed simp_all

lemma create_reading_plan_Some: "\<exists>r. create_reading_plan env clock inp = Some r"
proof (cases "book_schedule_list inp = []")
  case True
  then show ?thesis by (simp add: create_reading_plan_def initial_state_def)
next
  case False
  obtain cd st where "plan_loop env clock inp (start_date inp)
     \<lparr>events = [], books_completed = [], current_book_index = 0,
      current_book_remaining_min =
        calculate_reading_time_minutes (book_schedule_list inp ! 0) (reading_speeds inp),
      clock_reads = 0, notices = []\<rparr> = Some (cd, st)"
    using plan_loop_Some by (metis surj_pair)
  then show ?thesis using False by (simp add: create_reading_plan_def initial_state_def Let_def)
qed

lemma create_reading_plan_events_all:
  assumes run: "create_reading_plan env clock inp = Some r"
    and new: "\<And>now s m sm ds loc stt rv.
       0 < m \<or> m = of_int (review_time_per_book_min inp) \<Longrightarrow>
       \<Phi> (new_event env now s m sm ds (organizer_email_in inp) (organizer_name_in inp)
            reminders_config loc stt rv)"
  shows "\<forall>e\<in>set (res_events r). \<Phi> e"
proof (cases "book_schedule_list inp = []")
  case True
  then show ?thesis using run by (auto simp: create_reading_plan_def initial_state_def)
next
  case False
  then obtain cd st where pl: "plan_loop env clock inp (start_date inp)
     \<lparr>events = [], books_completed = [], current_book_index = 0,
      current_book_remaining_min =
        calculate_reading_time_minutes (book_schedule_list inp ! 0) (reading_speeds inp),
      clock_reads = 0, notices = []\<rparr> = Some (cd, st)" and r: "res_events r = events st"
    using run by (auto simp: create_reading_plan_def initial_state_def Let_def split: option.splits)
  have "\<forall>e\<in>set (events st). \<Phi> e"
    by (rule plan_loop_events_all[where \<Phi> = \<Phi>, OF pl _ new]) simp_all
  then show ?thesis using r by simp
qed

subsection \<open>An empty set of reading weekdays\<close>

lemma plan_loop_no_reading_day:
  assumes "\<forall>d. cd \<le> d \<and> d \<le> end_date inp \<longrightarrow> weekday d \<notin> set (reading_weekdays inp)"
    and "current_book_index st < length (book_schedule_list inp)"
  shows "plan_loop env clock inp cd st = Some (max cd (end_date inp + 1), st)"
  using assms
proof (induction env clock inp cd st rule: plan_loop.induct)
  case (1 env clock inp cd st)
  show ?case
  proof (cases "cd \<le> end_date inp")
    case False
    then show ?thesis by (subst plan_loop.simps) simp
  next
    case True
    have ds: "day_step env clock inp cd st = Some st"
      using "1.prems"(1) True by (simp add: day_step_def)
    have "plan_loop env clock inp (cd + 1) st = Some (max (cd + 1) (end_date inp + 1), st)"
      by (rule "1.IH"[OF True ds]) (use "1.prems" in auto)
    then show ?thesis using True ds "1.prems"(2) by (subst plan_loop.simps) (simp add: max_def)
  qed
qed

text \<open>
  C4, as the code has it. With a non-empty book list and an empty list of reading
  weekdays \<open>create_reading_plan\<close> raises nothing and rejects nothing: no date is a
  reading day, so the session loop and with it \<open>schedule_book_review\<close> are never
  entered, and the function returns normally with no event, an empty ledger and
  \<open>total_days\<close> the length of the window. (The check for an empty selection is made by
  the caller, the handler of the button, before it calls the engine.)
\<close>

theorem create_reading_plan_no_weekdays:
  assumes "reading_weekdays inp = []" and "book_schedule_list inp \<noteq> []"
  shows "create_reading_plan env clock inp =
     Some \<lparr>res_events = [], res_books_completed = [],
           res_stats = \<lparr>total_events = 0, books_completed_count = 0,
              total_book_hours =
                sum_list (map (\<lambda>book. calculate_reading_time_hours book (reading_speeds inp))
                           (book_schedule_list inp)),
              total_days = Some (max 0 (end_date inp + 1 - start_date inp))\<rparr>,
           res_notices = []\<rparr>"
proof -
  let ?st = "\<lparr>events = [], books_completed = [], current_book_index = 0,
      current_book_remaining_min =
        calculate_reading_time_minutes (book_schedule_list inp ! 0) (reading_speeds inp),
      clock_reads = 0, notices = []\<rparr>"
  have "plan_loop env clock inp (start_date inp) ?st =
      Some (max (start_date inp) (end_date inp + 1), ?st)"
    by (rule plan_loop_no_reading_day) (use assms in auto)
  then show ?thesis using assms(2)
    by (simp add: create_reading_plan_def initial_state_def Let_def max_def)
qed

text \<open>C4 as the specification words it does not hold: for the example input with no
  reading weekday the engine returns a result, the empty plan, and no configuration
  error.\<close>

theorem create_reading_plan_no_weekdays_witness:
  "reading_weekdays (example_input\<lparr>reading_weekdays := []\<rparr>) = [] \<and>
   book_schedule_list (example_input\<lparr>reading_weekdays := []\<rparr>) \<noteq> [] \<and>
   create_reading_plan example_env example_clock (example_input\<lparr>reading_weekdays := []\<rparr>) =
     Some \<lparr>res_events = [], res_books_completed = [],
           res_stats = \<lparr>total_events = 0, books_completed_count = 0,
              total_book_hours = 1 / 3, total_days = Some 121\<rparr>,
           res_notices = []\<rparr>"
  using create_reading_plan_no_weekdays [of "example_input\<lparr>reading_weekdays := []\<rparr>"
      example_env example_clock]
  by (simp add: example_input_def example_book_def calculate_reading_time_hours_def
      calculate_reading_time_minutes_def)

theorem create_reading_plan_no_weekdays_not_rejected:
  "create_reading_plan example_env example_clock (example_input\<lparr>reading_weekdays := []\<rparr>) =
     Some \<lparr>res_events = [], res_books_completed = [],
           res_stats = \<lparr>total_events = 0, books_completed_count = 0,
              total_book_hours = 1 / 3, total_days = Some 121\<rparr>,
           res_notices = []\<rparr>"
proof -
  let ?inp = "example_input\<lparr>reading_weekdays := []\<rparr>"
  let ?st = "\<lparr>events = [], books_completed = [], current_book_index = 0,
      current_book_remaining_min =
        calculate_reading_time_minutes (book_schedule_list ?inp ! 0) (reading_speeds ?inp),
      clock_reads = 0, notices = []\<rparr>"
  have "plan_loop example_env example_clock ?inp (start_date ?inp) ?st =
      Some (max (start_date ?inp) (end_date ?inp + 1), ?st)"
    by (rule plan_loop_no_reading_day) (simp_all add: example_input_def)
  then show ?thesis
    by (simp add: create_reading_plan_def initial_state_def Let_def example_input_def example_book_def
        calculate_reading_time_hours_def calculate_reading_time_minutes_def)
qed

subsection \<open>The wall clock\<close>

lemma without_dtstamp_new_event:
  "without_dtstamp (new_event env now s m sm ds oe on rc loc stt rv) =
   new_event env 0 s m sm ds oe on rc loc stt rv"
  by (simp add: without_dtstamp_def new_event_def Let_def format_ics_datetime_def)

lemma state_without_dtstamp_sel [simp]:
  "books_completed (state_without_dtstamp st) = books_completed st"
  "current_book_index (state_without_dtstamp st) = current_book_index st"
  "current_book_remaining_min (state_without_dtstamp st) = current_book_remaining_min st"
  "clock_reads (state_without_dtstamp st) = clock_reads st"
  "notices (state_without_dtstamp st) = notices st"
  "events (state_without_dtstamp st) = map without_dtstamp (events st)"
  by (simp_all add: state_without_dtstamp_def)

lemma read_session_without_dtstamp:
  "state_without_dtstamp (read_session env clock inp sst ttd st) =
   read_session env (\<lambda>k. 0) inp sst ttd (state_without_dtstamp st)"
  by (simp add: read_session_def Let_def add_event_def without_dtstamp_new_event
      state_without_dtstamp_def)

lemma final_event_without_dtstamp:
  "state_without_dtstamp (final_event env clock inp sst rst st) =
   final_event env (\<lambda>k. 0) inp sst rst (state_without_dtstamp st)"
  by (simp add: final_event_def add_event_def without_dtstamp_new_event
      state_without_dtstamp_def)

lemma complete_book_without_dtstamp:
  "map_option state_without_dtstamp (complete_book env clock inp cd st) =
   complete_book env (\<lambda>k. 0) inp cd (state_without_dtstamp st)"
  by (simp add: complete_book_def schedule_book_review_def Let_def add_event_def
      without_dtstamp_new_event state_without_dtstamp_def split: option.splits)

lemma session_body_without_dtstamp:
  "map_option step_without_dtstamp (session_body env clock inp cd rst sst st) =
   session_body env (\<lambda>k. 0) inp cd rst sst (state_without_dtstamp st)"
proof -
  define ttd where "ttd = min rst (current_book_remaining_min st)"
  define st1 where "st1 = read_session env clock inp sst ttd st"
  have r: "read_session env (\<lambda>k. 0) inp sst ttd (state_without_dtstamp st) =
      state_without_dtstamp st1"
    by (simp add: st1_def read_session_without_dtstamp)
  have c: "complete_book env (\<lambda>k. 0) inp cd (state_without_dtstamp st1) =
      map_option state_without_dtstamp (complete_book env clock inp cd st1)"
    by (simp add: complete_book_without_dtstamp)
  have upd: "\<And>s v. state_without_dtstamp (s\<lparr>current_book_remaining_min := v\<rparr>) =
      (state_without_dtstamp s)\<lparr>current_book_remaining_min := v\<rparr>"
    by (simp add: state_without_dtstamp_def)
  show ?thesis
    unfolding session_body_def Let_def
    by (simp add: ttd_def[symmetric] st1_def[symmetric] r c step_without_dtstamp_def upd
        final_event_without_dtstamp split: option.splits)
qed

lemma session_loop_without_dtstamp:
  "map_option state_without_dtstamp (session_loop env clock inp cd rst sst st) =
   session_loop env (\<lambda>k. 0) inp cd rst sst (state_without_dtstamp st)"
proof (induction env clock inp cd rst sst st rule: session_loop.induct)
  case (1 env clock inp cd rst sst st)
  note unf = session_loop.simps[of env clock inp cd rst sst st]
    session_loop.simps[of env "\<lambda>k. 0" inp cd rst sst "state_without_dtstamp st"]
  show ?case
  proof (cases "0 < rst \<and> current_book_index st < length (book_schedule_list inp)")
    case False
    then show ?thesis
      by (auto simp: unf)
  next
    case True
    note sb = session_body_without_dtstamp[of env clock inp cd rst sst st, symmetric]
    show ?thesis
    proof (cases "session_body env clock inp cd rst sst st")
      case None
      then show ?thesis using True sb
        by (simp add: unf)
    next
      case (Some r)
      show ?thesis
      proof (cases r)
        case (Break st')
        then show ?thesis using True sb Some
          by (simp add: unf step_without_dtstamp_def)
      next
        case (Continue rst' sst' st')
        from "1.IH"[OF True Some[unfolded Continue] refl]
        show ?thesis using True sb Some Continue
          by (simp add: unf step_without_dtstamp_def)
      qed
    qed
  qed
qed

lemma day_step_without_dtstamp:
  "map_option state_without_dtstamp (day_step env clock inp cd st) =
   day_step env (\<lambda>k. 0) inp cd (state_without_dtstamp st)"
  by (simp add: day_step_def session_loop_without_dtstamp)

lemma plan_loop_without_dtstamp:
  "map_option (\<lambda>(d, s). (d, state_without_dtstamp s)) (plan_loop env clock inp cd st) =
   plan_loop env (\<lambda>k. 0) inp cd (state_without_dtstamp st)"
proof (induction env clock inp cd st rule: plan_loop.induct)
  case (1 env clock inp cd st)
  note ds = day_step_without_dtstamp[of env clock inp cd st, symmetric]
  have upd: "\<And>s v. state_without_dtstamp (s\<lparr>notices := v\<rparr>) =
      (state_without_dtstamp s)\<lparr>notices := v\<rparr>"
    by (simp add: state_without_dtstamp_def)
  note unf = plan_loop.simps[of env clock inp cd st]
    plan_loop.simps[of env "\<lambda>k. 0" inp cd "state_without_dtstamp st"]
  show ?case
  proof (cases "cd \<le> end_date inp")
    case False
    then show ?thesis by (simp add: unf)
  next
    case True
    show ?thesis
    proof (cases "day_step env clock inp cd st")
      case None
      then show ?thesis using True ds
        by (simp add: unf)
    next
      case (Some st1)
      show ?thesis
      proof (cases "length (book_schedule_list inp) \<le> current_book_index st1")
        case True
        then show ?thesis using \<open>cd \<le> end_date inp\<close> ds Some
          by (simp add: unf upd)
      next
        case False
        from "1.IH"[OF True Some False]
        show ?thesis using True ds Some False
          by (simp add: unf)
      qed
    qed
  qed
qed

lemma create_reading_plan_without_dtstamp:
  "map_option result_without_dtstamp (create_reading_plan env clock inp) =
   create_reading_plan env (\<lambda>k. 0) inp"
proof (cases "book_schedule_list inp = []")
  case True
  then show ?thesis by (simp add: create_reading_plan_def initial_state_def result_without_dtstamp_def)
next
  case False
  let ?st = "\<lparr>events = [], books_completed = [], current_book_index = 0,
      current_book_remaining_min =
        calculate_reading_time_minutes (book_schedule_list inp ! 0) (reading_speeds inp),
      clock_reads = 0, notices = []\<rparr>"
  have st: "state_without_dtstamp ?st = ?st" by (simp add: state_without_dtstamp_def)
  from plan_loop_without_dtstamp[of env clock inp "start_date inp" ?st, symmetric]
  show ?thesis using False
    by (auto simp: create_reading_plan_def initial_state_def Let_def st result_without_dtstamp_def
        split: option.splits)
qed

lemma session_body_dtstamp:
  assumes body: "session_body env clock inp cd rst sst st = Some r"
    and inv: "clock_reads st = length (events st) \<and>
       (\<forall>k<length (events st). dtstamp (events st ! k) = clock k)"
  shows "case r of
       Break st' \<Rightarrow> clock_reads st' = length (events st') \<and>
         (\<forall>k<length (events st'). dtstamp (events st' ! k) = clock k)
     | Continue rst' sst' st' \<Rightarrow> clock_reads st' = length (events st') \<and>
         (\<forall>k<length (events st'). dtstamp (events st' ! k) = clock k)"
proof -
  have rd: "\<And>sst ttd. clock_reads (read_session env clock inp sst ttd st) =
        length (events (read_session env clock inp sst ttd st)) \<and>
       (\<forall>k<length (events (read_session env clock inp sst ttd st)).
          dtstamp (events (read_session env clock inp sst ttd st) ! k) = clock k)"
    using inv by (auto simp: read_session_def Let_def add_event_def nth_append not_less_less_Suc_eq)
  have cb: "\<And>st1 st2. complete_book env clock inp cd st1 = Some st2 \<Longrightarrow>
       clock_reads st1 = length (events st1) \<and>
       (\<forall>k<length (events st1). dtstamp (events st1 ! k) = clock k) \<Longrightarrow>
       clock_reads st2 = length (events st2) \<and>
       (\<forall>k<length (events st2). dtstamp (events st2 ! k) = clock k)"
    by (drule complete_book_SomeD) (auto simp: nth_append not_less_less_Suc_eq)
  have fe: "\<And>st2 sst rst. clock_reads st2 = length (events st2) \<and>
       (\<forall>k<length (events st2). dtstamp (events st2 ! k) = clock k) \<Longrightarrow>
       clock_reads (final_event env clock inp sst rst st2) =
         length (events (final_event env clock inp sst rst st2)) \<and>
       (\<forall>k<length (events (final_event env clock inp sst rst st2)).
          dtstamp (events (final_event env clock inp sst rst st2) ! k) = clock k)"
    by (auto simp: final_event_def add_event_def nth_append not_less_less_Suc_eq)
  from body show ?thesis
  proof (cases rule: session_body_cases)
    case idle
    then show ?thesis using inv by simp
  next
    case partial
    then show ?thesis using rd by simp
  next
    case (next_book st2)
    from cb[OF next_book(3) rd] show ?thesis using next_book(5) by simp
  next
    case (last_book st2)
    from fe[OF cb[OF last_book(3) rd]] show ?thesis using last_book(5) by simp
  qed
qed

lemma plan_loop_dtstamp:
  assumes run: "plan_loop env clock inp cd st = Some (cd', st')"
    and inv: "clock_reads st = length (events st) \<and>
       (\<forall>k<length (events st). dtstamp (events st ! k) = clock k)"
  shows "clock_reads st' = length (events st') \<and>
       (\<forall>k<length (events st'). dtstamp (events st' ! k) = clock k)"
proof (rule plan_loop_rule[OF run, where
      I = "\<lambda>cd st. clock_reads st = length (events st) \<and>
       (\<forall>k<length (events st). dtstamp (events st ! k) = clock k)" and
      Q = "\<lambda>cd st. clock_reads st = length (events st) \<and>
       (\<forall>k<length (events st). dtstamp (events st ! k) = clock k)"])
  show "clock_reads st = length (events st) \<and>
       (\<forall>k<length (events st). dtstamp (events st ! k) = clock k)" by (rule inv)
next
  fix cd st st1
  assume a: "clock_reads st = length (events st) \<and>
       (\<forall>k<length (events st). dtstamp (events st ! k) = clock k)"
    "day_step env clock inp cd st = Some st1"
  show "clock_reads st1 = length (events st1) \<and>
       (\<forall>k<length (events st1). dtstamp (events st1 ! k) = clock k)"
  proof (cases "weekday cd \<in> set (reading_weekdays inp)")
    case False
    then show ?thesis using a by (simp add: day_step_def)
  next
    case True
    then have sl: "session_loop env clock inp cd (of_int (daily_time_total_minutes inp))
        (combine cd (start_time_books inp)) st = Some st1"
      using a(2) by (simp add: day_step_def)
    show ?thesis
    proof (rule session_loop_rule[OF sl, where
        I = "\<lambda>rst sst st. clock_reads st = length (events st) \<and>
          (\<forall>k<length (events st). dtstamp (events st ! k) = clock k)"])
      show "clock_reads st = length (events st) \<and>
          (\<forall>k<length (events st). dtstamp (events st ! k) = clock k)" by (rule a(1))
    next
      fix rst sst st st'
      assume "clock_reads st = length (events st) \<and>
          (\<forall>k<length (events st). dtstamp (events st ! k) = clock k)"
        "session_body env clock inp cd rst sst st = Some (Break st')"
      from session_body_dtstamp[OF this(2) this(1)]
      show "clock_reads st' = length (events st') \<and>
          (\<forall>k<length (events st'). dtstamp (events st' ! k) = clock k)" by simp
    next
      fix rst sst st rst' sst' st'
      assume "clock_reads st = length (events st) \<and>
          (\<forall>k<length (events st). dtstamp (events st ! k) = clock k)"
        "session_body env clock inp cd rst sst st = Some (Continue rst' sst' st')"
      from session_body_dtstamp[OF this(2) this(1)]
      show "clock_reads st' = length (events st') \<and>
          (\<forall>k<length (events st'). dtstamp (events st' ! k) = clock k)" by simp
    qed
  qed
qed simp_all

lemma create_reading_plan_dtstamp:
  assumes run: "create_reading_plan env clock inp = Some r"
  shows "\<forall>k<length (res_events r). dtstamp (res_events r ! k) = clock k"
proof (cases "book_schedule_list inp = []")
  case True
  then show ?thesis using run by (auto simp: create_reading_plan_def initial_state_def)
next
  case False
  then obtain cd st where pl: "plan_loop env clock inp (start_date inp)
     \<lparr>events = [], books_completed = [], current_book_index = 0,
      current_book_remaining_min =
        calculate_reading_time_minutes (book_schedule_list inp ! 0) (reading_speeds inp),
      clock_reads = 0, notices = []\<rparr> = Some (cd, st)" and r: "res_events r = events st"
    using run by (auto simp: create_reading_plan_def initial_state_def Let_def split: option.splits)
  from plan_loop_dtstamp[OF pl] r show ?thesis by simp
qed

lemma new_event_uid:
  "uid (new_event env now s m sm ds oe on rc loc stt rv) =
   get_ics_uid env (dtstart (new_event env now s m sm ds oe on rc loc stt rv))
     (unescape_ics_text (summary (new_event env now s m sm ds oe on rc loc stt rv)))"
  by (simp add: unescape_escape)

text \<open>
  C10. Two runs of \<open>create_reading_plan\<close> on the same input, with the same string hash
  and number formatting but any two wall clocks, return the same events, ledger and
  statistics once the \<open>dtstamp\<close> of every event is blanked; the \<open>dtstamp\<close> of the
  \<open>k\<close>-th event is the \<open>k\<close>-th reading of the clock; and the \<open>uid\<close> of every event is
  \<open>get_ics_uid\<close> of its start and of the title that its summary escapes.
\<close>

theorem create_reading_plan_deterministic:
  "map_option result_without_dtstamp (create_reading_plan env clock1 inp) =
   map_option result_without_dtstamp (create_reading_plan env clock2 inp) \<and>
   (\<exists>r. create_reading_plan env clock1 inp = Some r \<and>
      (\<forall>k<length (res_events r). dtstamp (res_events r ! k) = clock1 k) \<and>
      (\<forall>e\<in>set (res_events r).
         uid e = get_ics_uid env (dtstart e) (unescape_ics_text (summary e))))"
proof -
  obtain r where r: "create_reading_plan env clock1 inp = Some r"
    using create_reading_plan_Some by blast
  have "\<forall>e\<in>set (res_events r).
         uid e = get_ics_uid env (dtstart e) (unescape_ics_text (summary e))"
    by (rule create_reading_plan_events_all[OF r]) (rule new_event_uid)
  then show ?thesis
    using r create_reading_plan_dtstamp[OF r]
      create_reading_plan_without_dtstamp[of env clock1 inp]
      create_reading_plan_without_dtstamp[of env clock2 inp]
    by simp
qed

theorem create_reading_plan_deterministic_witness:
  "map_option result_without_dtstamp
     (create_reading_plan example_env example_clock example_input) =
   map_option result_without_dtstamp
     (create_reading_plan example_env (\<lambda>k. 1 + of_nat k) example_input) \<and>
   (\<exists>r. create_reading_plan example_env example_clock example_input = Some r \<and>
      (\<forall>k<length (res_events r). dtstamp (res_events r ! k) = example_clock k) \<and>
      (\<forall>e\<in>set (res_events r).
         uid e = get_ics_uid example_env (dtstart e) (unescape_ics_text (summary e))))"
  by (rule create_reading_plan_deterministic)

subsection \<open>The ledger and the elapsed days\<close>

lemma plan_loop_rule2:
  assumes run: "plan_loop env clock inp cd st = Some (cd', st')"
    and init: "I cd st"
    and day: "\<And>cd st st1. I cd st \<Longrightarrow> cd \<le> end_date inp \<Longrightarrow>
         day_step env clock inp cd st = Some st1 \<Longrightarrow> J (cd + 1) st1"
    and cont: "\<And>cd st. J cd st \<Longrightarrow>
         \<not> length (book_schedule_list inp) \<le> current_book_index st \<Longrightarrow> I cd st"
    and brk: "\<And>cd st. J cd st \<Longrightarrow> length (book_schedule_list inp) \<le> current_book_index st \<Longrightarrow>
         Q cd (st\<lparr>notices := notices st @ [cd]\<rparr>)"
    and fin: "\<And>cd st. I cd st \<Longrightarrow> \<not> cd \<le> end_date inp \<Longrightarrow> Q cd st"
  shows "Q cd' st'"
  using assms
proof (induction env clock inp cd st rule: plan_loop.induct)
  case (1 env clock inp cd st)
  note run = "1.prems"(1) and init = "1.prems"(2) and day = "1.prems"(3)
    and cont = "1.prems"(4) and brk = "1.prems"(5) and fin = "1.prems"(6)
  show ?case
  proof (cases "cd \<le> end_date inp")
    case False
    then have "cd' = cd \<and> st' = st" using run by (subst (asm) plan_loop.simps) simp
    then show ?thesis using fin[OF init False] by simp
  next
    case True
    obtain st1 where st1: "day_step env clock inp cd st = Some st1"
      using day_step_Some by blast
    have J1: "J (cd + 1) st1" using day[OF init True st1] .
    show ?thesis
    proof (cases "length (book_schedule_list inp) \<le> current_book_index st1")
      case finished: True
      then have "cd' = cd + 1 \<and> st' = st1\<lparr>notices := notices st1 @ [cd + 1]\<rparr>"
        using run True st1 by (subst (asm) plan_loop.simps) auto
      then show ?thesis using brk[OF J1 finished] by simp
    next
      case more: False
      have run': "plan_loop env clock inp (cd + 1) st1 = Some (cd', st')"
        using run True st1 more by (subst (asm) plan_loop.simps) simp
      from "1.IH"[OF True st1 more run' cont[OF J1 more] day cont brk fin]
      show ?thesis .
    qed
  qed
qed

text \<open>The ledger and the index of the current book.\<close>

lemma session_body_ledger:
  assumes body: "session_body env clock inp cd rst sst st = Some r"
    and idx: "current_book_index st < length (book_schedule_list inp)"
    and inv: "length (books_completed st) = current_book_index st"
  shows "case r of
       Break st' \<Rightarrow> length (books_completed st') = current_book_index st' \<and>
         current_book_index st' \<le> length (book_schedule_list inp) \<and>
         (length (book_schedule_list inp) \<le> current_book_index st' \<longrightarrow>
            books_completed st' \<noteq> [] \<and>
            Fecha_de_finalizacion (last (books_completed st')) = cd)
     | Continue rst' sst' st' \<Rightarrow> length (books_completed st') = current_book_index st' \<and>
         current_book_index st' < length (book_schedule_list inp)"
  using body
proof (cases rule: session_body_cases)
  case idle
  then show ?thesis using idx inv by simp
next
  case partial
  then show ?thesis using idx inv by (simp add: read_session_def Let_def)
next
  case (next_book st2)
  from complete_book_SomeD[OF next_book(3)] next_book(4,5) show ?thesis
    using idx inv by (auto simp: read_session_def Let_def)
next
  case (last_book st2)
  from complete_book_SomeD[OF last_book(3)] last_book(4,5) show ?thesis
    using idx inv by (auto simp: read_session_def Let_def final_event_def)
qed

lemma session_loop_ledger:
  assumes run: "session_loop env clock inp cd rst sst st = Some st'"
    and idx: "current_book_index st < length (book_schedule_list inp)"
    and inv: "length (books_completed st) = current_book_index st"
  shows "length (books_completed st') = current_book_index st' \<and>
         current_book_index st' \<le> length (book_schedule_list inp) \<and>
         (length (book_schedule_list inp) \<le> current_book_index st' \<longrightarrow>
            books_completed st' \<noteq> [] \<and>
            Fecha_de_finalizacion (last (books_completed st')) = cd)"
proof (rule session_loop_rule[OF run, where
      I = "\<lambda>rst sst st. length (books_completed st) = current_book_index st \<and>
         current_book_index st < length (book_schedule_list inp)"])
  show "length (books_completed st) = current_book_index st \<and>
         current_book_index st < length (book_schedule_list inp)" using idx inv by simp
next
  fix rst sst and st st' :: plan_state
  assume a: "length (books_completed st) = current_book_index st \<and>
         current_book_index st < length (book_schedule_list inp)"
    "session_body env clock inp cd rst sst st = Some (Break st')"
  from session_body_ledger[OF a(2)] a(1)
  show "length (books_completed st') = current_book_index st' \<and>
         current_book_index st' \<le> length (book_schedule_list inp) \<and>
         (length (book_schedule_list inp) \<le> current_book_index st' \<longrightarrow>
            books_completed st' \<noteq> [] \<and>
            Fecha_de_finalizacion (last (books_completed st')) = cd)" by simp
next
  fix rst sst rst' sst' and st st' :: plan_state
  assume a: "length (books_completed st) = current_book_index st \<and>
         current_book_index st < length (book_schedule_list inp)"
    "session_body env clock inp cd rst sst st = Some (Continue rst' sst' st')"
  from session_body_ledger[OF a(2)] a(1)
  show "length (books_completed st') = current_book_index st' \<and>
         current_book_index st' < length (book_schedule_list inp)" by simp
next
  fix rst sst and st :: plan_state
  assume "length (books_completed st) = current_book_index st \<and>
         current_book_index st < length (book_schedule_list inp)"
  then show "length (books_completed st) = current_book_index st \<and>
         current_book_index st \<le> length (book_schedule_list inp) \<and>
         (length (book_schedule_list inp) \<le> current_book_index st \<longrightarrow>
            books_completed st \<noteq> [] \<and>
            Fecha_de_finalizacion (last (books_completed st)) = cd)" by simp
qed

lemma plan_loop_stop_date:
  assumes run: "plan_loop env clock inp (start_date inp) st = Some (stop, st')"
    and idx: "current_book_index st < length (book_schedule_list inp)"
    and inv: "length (books_completed st) = current_book_index st"
  shows "length (books_completed st') = current_book_index st' \<and>
         current_book_index st' \<le> length (book_schedule_list inp) \<and>
         start_date inp \<le> stop \<and>
         (if length (books_completed st') = length (book_schedule_list inp)
          then books_completed st' \<noteq> [] \<and>
               stop = Fecha_de_finalizacion (last (books_completed st')) + 1 \<and>
               start_date inp \<le> Fecha_de_finalizacion (last (books_completed st')) \<and>
               Fecha_de_finalizacion (last (books_completed st')) \<le> end_date inp
          else stop = max (start_date inp) (end_date inp + 1))"
proof (rule plan_loop_rule2[OF run, where
      I = "\<lambda>cd st. length (books_completed st) = current_book_index st \<and>
         current_book_index st < length (book_schedule_list inp) \<and>
         start_date inp \<le> cd \<and> cd \<le> max (start_date inp) (end_date inp + 1)" and
      J = "\<lambda>cd st. length (books_completed st) = current_book_index st \<and>
         current_book_index st \<le> length (book_schedule_list inp) \<and>
         start_date inp < cd \<and> cd \<le> end_date inp + 1 \<and>
         (length (book_schedule_list inp) \<le> current_book_index st \<longrightarrow>
            books_completed st \<noteq> [] \<and>
            Fecha_de_finalizacion (last (books_completed st)) = cd - 1)"])
  show "length (books_completed st) = current_book_index st \<and>
         current_book_index st < length (book_schedule_list inp) \<and>
         start_date inp \<le> start_date inp \<and>
         start_date inp \<le> max (start_date inp) (end_date inp + 1)"
    using idx inv by simp
next
  fix cd and st st1 :: plan_state
  assume a: "length (books_completed st) = current_book_index st \<and>
         current_book_index st < length (book_schedule_list inp) \<and>
         start_date inp \<le> cd \<and> cd \<le> max (start_date inp) (end_date inp + 1)"
    "cd \<le> end_date inp" "day_step env clock inp cd st = Some st1"
  show "length (books_completed st1) = current_book_index st1 \<and>
         current_book_index st1 \<le> length (book_schedule_list inp) \<and>
         start_date inp < cd + 1 \<and> cd + 1 \<le> end_date inp + 1 \<and>
         (length (book_schedule_list inp) \<le> current_book_index st1 \<longrightarrow>
            books_completed st1 \<noteq> [] \<and>
            Fecha_de_finalizacion (last (books_completed st1)) = cd + 1 - 1)"
  proof (cases "weekday cd \<in> set (reading_weekdays inp)")
    case False
    then show ?thesis using a by (auto simp: day_step_def)
  next
    case True
    then have sl: "session_loop env clock inp cd (of_int (daily_time_total_minutes inp))
        (combine cd (start_time_books inp)) st = Some st1"
      using a(3) by (simp add: day_step_def)
    from session_loop_ledger[OF sl] a(1,2) show ?thesis by simp
  qed
next
  fix cd and st :: plan_state
  assume "length (books_completed st) = current_book_index st \<and>
         current_book_index st \<le> length (book_schedule_list inp) \<and>
         start_date inp < cd \<and> cd \<le> end_date inp + 1 \<and>
         (length (book_schedule_list inp) \<le> current_book_index st \<longrightarrow>
            books_completed st \<noteq> [] \<and>
            Fecha_de_finalizacion (last (books_completed st)) = cd - 1)"
    "\<not> length (book_schedule_list inp) \<le> current_book_index st"
  then show "length (books_completed st) = current_book_index st \<and>
         current_book_index st < length (book_schedule_list inp) \<and>
         start_date inp \<le> cd \<and> cd \<le> max (start_date inp) (end_date inp + 1)"
    by auto
next
  fix cd and st :: plan_state
  assume "length (books_completed st) = current_book_index st \<and>
         current_book_index st \<le> length (book_schedule_list inp) \<and>
         start_date inp < cd \<and> cd \<le> end_date inp + 1 \<and>
         (length (book_schedule_list inp) \<le> current_book_index st \<longrightarrow>
            books_completed st \<noteq> [] \<and>
            Fecha_de_finalizacion (last (books_completed st)) = cd - 1)"
    "length (book_schedule_list inp) \<le> current_book_index st"
  then show "length (books_completed (st\<lparr>notices := notices st @ [cd]\<rparr>)) =
         current_book_index (st\<lparr>notices := notices st @ [cd]\<rparr>) \<and>
         current_book_index (st\<lparr>notices := notices st @ [cd]\<rparr>)
           \<le> length (book_schedule_list inp) \<and>
         start_date inp \<le> cd \<and>
         (if length (books_completed (st\<lparr>notices := notices st @ [cd]\<rparr>)) =
             length (book_schedule_list inp)
          then books_completed (st\<lparr>notices := notices st @ [cd]\<rparr>) \<noteq> [] \<and>
               cd = Fecha_de_finalizacion
                      (last (books_completed (st\<lparr>notices := notices st @ [cd]\<rparr>))) + 1 \<and>
               start_date inp \<le> Fecha_de_finalizacion
                      (last (books_completed (st\<lparr>notices := notices st @ [cd]\<rparr>))) \<and>
               Fecha_de_finalizacion
                      (last (books_completed (st\<lparr>notices := notices st @ [cd]\<rparr>)))
                 \<le> end_date inp
          else cd = max (start_date inp) (end_date inp + 1))"
    by auto
next
  fix cd and st :: plan_state
  assume "length (books_completed st) = current_book_index st \<and>
         current_book_index st < length (book_schedule_list inp) \<and>
         start_date inp \<le> cd \<and> cd \<le> max (start_date inp) (end_date inp + 1)"
    "\<not> cd \<le> end_date inp"
  then show "length (books_completed st) = current_book_index st \<and>
         current_book_index st \<le> length (book_schedule_list inp) \<and>
         start_date inp \<le> cd \<and>
         (if length (books_completed st) = length (book_schedule_list inp)
          then books_completed st \<noteq> [] \<and>
               cd = Fecha_de_finalizacion (last (books_completed st)) + 1 \<and>
               start_date inp \<le> Fecha_de_finalizacion (last (books_completed st)) \<and>
               Fecha_de_finalizacion (last (books_completed st)) \<le> end_date inp
          else cd = max (start_date inp) (end_date inp + 1))"
    by (auto simp: max_def)
qed

text \<open>
  C5. For a non-empty book list \<open>total_days\<close> is the absolute difference in days between
  \<open>start_date\<close> and the date at which the main loop stopped. When every book is in the
  ledger, that date is the day after the last completion date, which is no later than
  \<open>end_date\<close>, so \<open>total_days\<close> counts the days up to and including the completion
  date; otherwise the loop ran to the day after \<open>end_date\<close> and \<open>total_days\<close> is the
  length of the window.
\<close>

theorem total_days_reflects_stop_date:
  assumes "book_schedule_list inp \<noteq> []"
  shows "\<exists>stop st r.
     plan_loop env clock inp (start_date inp) (initial_state inp) = Some (stop, st) \<and>
     create_reading_plan env clock inp = Some r \<and>
     total_days (res_stats r) = Some \<bar>start_date inp - stop\<bar> \<and>
     (if length (res_books_completed r) = length (book_schedule_list inp)
      then res_books_completed r \<noteq> [] \<and>
           stop = Fecha_de_finalizacion (last (res_books_completed r)) + 1 \<and>
           Fecha_de_finalizacion (last (res_books_completed r)) \<le> end_date inp \<and>
           total_days (res_stats r) =
             Some (Fecha_de_finalizacion (last (res_books_completed r)) + 1 - start_date inp)
      else stop = max (start_date inp) (end_date inp + 1) \<and>
           total_days (res_stats r) = Some (max 0 (end_date inp + 1 - start_date inp)))"
proof -
  obtain stop st where pl:
    "plan_loop env clock inp (start_date inp) (initial_state inp) = Some (stop, st)"
    using plan_loop_Some by (metis surj_pair)
  define r where "r = \<lparr>res_events = events st, res_books_completed = books_completed st,
      res_stats = \<lparr>total_events = length (events st),
         books_completed_count = length (books_completed st),
         total_book_hours =
           sum_list (map (\<lambda>book. calculate_reading_time_hours book (reading_speeds inp))
                      (book_schedule_list inp)),
         total_days = Some \<bar>start_date inp - stop\<bar>\<rparr>,
      res_notices = notices st\<rparr>"
  have cr: "create_reading_plan env clock inp = Some r"
    using assms pl by (simp add: create_reading_plan_def Let_def r_def)
  have "current_book_index (initial_state inp) < length (book_schedule_list inp)"
    "length (books_completed (initial_state inp)) = current_book_index (initial_state inp)"
    using assms by (simp_all add: initial_state_def)
  from plan_loop_stop_date[OF pl this]
  have "(if length (res_books_completed r) = length (book_schedule_list inp)
      then res_books_completed r \<noteq> [] \<and>
           stop = Fecha_de_finalizacion (last (res_books_completed r)) + 1 \<and>
           Fecha_de_finalizacion (last (res_books_completed r)) \<le> end_date inp \<and>
           total_days (res_stats r) =
             Some (Fecha_de_finalizacion (last (res_books_completed r)) + 1 - start_date inp)
      else stop = max (start_date inp) (end_date inp + 1) \<and>
           total_days (res_stats r) = Some (max 0 (end_date inp + 1 - start_date inp)))"
    by (auto simp: r_def max_def split: if_splits)
  moreover have "total_days (res_stats r) = Some \<bar>start_date inp - stop\<bar>"
    by (simp add: r_def)
  ultimately show ?thesis using pl cr by blast
qed

theorem total_days_reflects_stop_date_witness:
  "book_schedule_list example_input \<noteq> [] \<and>
   (\<exists>stop st r.
     plan_loop example_env example_clock example_input (start_date example_input)
       (initial_state example_input) = Some (stop, st) \<and>
     create_reading_plan example_env example_clock example_input = Some r \<and>
     total_days (res_stats r) = Some \<bar>start_date example_input - stop\<bar> \<and>
     (if length (res_books_completed r) = length (book_schedule_list example_input)
      then res_books_completed r \<noteq> [] \<and>
           stop = Fecha_de_finalizacion (last (res_books_completed r)) + 1 \<and>
           Fecha_de_finalizacion (last (res_books_completed r)) \<le> end_date example_input \<and>
           total_days (res_stats r) =
             Some (Fecha_de_finalizacion (last (res_books_completed r)) + 1
                   - start_date example_input)
      else stop = max (start_date example_input) (end_date example_input + 1) \<and>
           total_days (res_stats r) =
             Some (max 0 (end_date example_input + 1 - start_date example_input))))"
proof -
  have h: "book_schedule_list example_input \<noteq> []" by (simp add: example_input_def)
  from total_days_reflects_stop_date [OF h, of example_env example_clock] h
  show ?thesis by blast
qed

subsection \<open>The completion threshold\<close>

lemma review_date_loop_SomeD:
  assumes "review_date_loop wds cd = Some d"
  shows "cd \<le> d \<and> weekday d \<in> set wds \<and> (\<forall>x. cd \<le> x \<and> x < d \<longrightarrow> weekday x \<notin> set wds)"
proof (rule review_date_loop.raw_induct[where
      P = "\<lambda>wds cd d. cd \<le> d \<and> weekday d \<in> set wds \<and>
             (\<forall>x. cd \<le> x \<and> x < d \<longrightarrow> weekday x \<notin> set wds)", OF _ assms])
  fix rl :: "int list \<Rightarrow> int \<Rightarrow> int option" and wds cd d
  assume IH: "\<And>w c y. rl w c = Some y \<Longrightarrow>
       c \<le> y \<and> weekday y \<in> set w \<and> (\<forall>x. c \<le> x \<and> x < y \<longrightarrow> weekday x \<notin> set w)"
    and eq: "(if weekday cd \<notin> set wds then rl wds (cd + 1) else Some cd) = Some d"
  show "cd \<le> d \<and> weekday d \<in> set wds \<and> (\<forall>x. cd \<le> x \<and> x < d \<longrightarrow> weekday x \<notin> set wds)"
  proof (cases "weekday cd \<in> set wds")
    case True
    then show ?thesis using eq by auto
  next
    case False
    then have "rl wds (cd + 1) = Some d" using eq by simp
    from IH[OF this] have a: "cd + 1 \<le> d" "weekday d \<in> set wds"
      "\<forall>x. cd + 1 \<le> x \<and> x < d \<longrightarrow> weekday x \<notin> set wds" by auto
    have "\<forall>x. cd \<le> x \<and> x < d \<longrightarrow> weekday x \<notin> set wds"
    proof (intro allI impI)
      fix x assume "cd \<le> x \<and> x < d"
      then show "weekday x \<notin> set wds" using False a(3) by (cases "x = cd") auto
    qed
    then show ?thesis using a by auto
  qed
qed

lemma session_body_completion_threshold:
  assumes wk: "weekday cd \<in> set (reading_weekdays inp)"
  shows "\<exists>r. session_body env clock inp cd rst sst st = Some r \<and>
     books_completed (case r of Break st' \<Rightarrow> st' | Continue rst' sst' st' \<Rightarrow> st') =
       (if 0 < min rst (current_book_remaining_min st) \<and>
           current_book_remaining_min st - min rst (current_book_remaining_min st) \<le> 1 / 10
        then books_completed st @
               [\<lparr>Libro = title (book_schedule_list inp ! current_book_index st),
                 Horas = py_round2 env (calculate_reading_time_hours
                    (book_schedule_list inp ! current_book_index st) (reading_speeds inp)),
                 Fecha_de_finalizacion = cd\<rparr>]
        else books_completed st)"
proof -
  obtain r where r: "session_body env clock inp cd rst sst st = Some r"
    using session_body_Some[OF wk] by blast
  define ttd where "ttd = min rst (current_book_remaining_min st)"
  have "books_completed (case r of Break st' \<Rightarrow> st' | Continue rst' sst' st' \<Rightarrow> st') =
       (if 0 < ttd \<and> current_book_remaining_min st - ttd \<le> 1 / 10
        then books_completed st @
               [\<lparr>Libro = title (book_schedule_list inp ! current_book_index st),
                 Horas = py_round2 env (calculate_reading_time_hours
                    (book_schedule_list inp ! current_book_index st) (reading_speeds inp)),
                 Fecha_de_finalizacion = cd\<rparr>]
        else books_completed st)"
  proof (rule session_body_cases[OF r, folded ttd_def])
    assume "ttd \<le> 0" "r = Break st"
    then show ?thesis by simp
  next
    assume "0 < ttd" "1 / 10 < current_book_remaining_min st - ttd"
      "r = Continue (rst - ttd) (sst + ttd) (read_session env clock inp sst ttd st)"
    then show ?thesis by (simp add: read_session_def Let_def)
  next
    fix st2
    assume a: "0 < ttd" "current_book_remaining_min st - ttd \<le> 1 / 10"
      "complete_book env clock inp cd (read_session env clock inp sst ttd st) = Some st2"
      "r = Continue (rst - ttd) (sst + ttd)
         (st2\<lparr>current_book_remaining_min :=
            calculate_reading_time_minutes (book_schedule_list inp ! current_book_index st2)
              (reading_speeds inp)\<rparr>)"
    from complete_book_SomeD[OF a(3)] a(1,2,4) show ?thesis
      by (auto simp: read_session_def Let_def)
  next
    fix st2
    assume a: "0 < ttd" "current_book_remaining_min st - ttd \<le> 1 / 10"
      "complete_book env clock inp cd (read_session env clock inp sst ttd st) = Some st2"
      "r = Break (final_event env clock inp (sst + ttd) (rst - ttd) st2)"
    from complete_book_SomeD[OF a(3)] a(1,2,4) show ?thesis
      by (auto simp: read_session_def Let_def final_event_def)
  qed
  then show ?thesis using r unfolding ttd_def by blast
qed

lemma plan_loop_skip:
  assumes "review_date_loop (reading_weekdays inp) cd = Some d"
    and "d \<le> end_date inp"
    and "current_book_index st < length (book_schedule_list inp)"
  shows "plan_loop env clock inp cd st = plan_loop env clock inp d st"
proof -
  from review_date_loop_SomeD[OF assms(1)] have le: "cd \<le> d"
    and no: "\<forall>x. cd \<le> x \<and> x < d \<longrightarrow> weekday x \<notin> set (reading_weekdays inp)" by auto
  have "\<And>c. cd \<le> c \<Longrightarrow> nat (d - c) = n \<Longrightarrow> c \<le> d \<Longrightarrow>
      plan_loop env clock inp c st = plan_loop env clock inp d st" for n
  proof (induction n)
    case 0
    then show ?case by simp
  next
    case (Suc n)
    have lt: "c < d" using Suc.prems by linarith
    then have "weekday c \<notin> set (reading_weekdays inp)" using no Suc.prems by simp
    then have ds: "day_step env clock inp c st = Some st" by (simp add: day_step_def)
    have "plan_loop env clock inp c st = plan_loop env clock inp (c + 1) st"
      using lt assms(2,3) ds by (subst plan_loop.simps) simp
    also have "\<dots> = plan_loop env clock inp d st"
      by (rule Suc.IH) (use Suc.prems lt in auto)
    finally show ?case .
  qed
  from this[OF order_refl refl le] show ?thesis .
qed

lemma twenty_minutes_in_two_days:
  assumes bl: "book_schedule_list inp = [b]" and pg: "pages b = 10"
    and sp: "reading_speeds inp (category b) = Some 2"
    and daily: "daily_time_total_minutes inp = 15"
    and r1: "review_date_loop (reading_weekdays inp) (start_date inp) = Some d1"
    and r2: "review_date_loop (reading_weekdays inp) (d1 + 1) = Some d2"
    and en: "d2 \<le> end_date inp"
  shows "\<exists>d3. review_date_loop (reading_weekdays inp) (d2 + 1) = Some d3 \<and>
     create_reading_plan env clock inp =
       Some \<lparr>res_events =
          [new_event env (clock 0) (combine d1 (start_time_books inp)) 15
             (reading_summary (title b)) (reading_description env (title b) 20 15)
             (organizer_email_in inp) (organizer_name_in inp) reminders_config
             ''Sala de estudio'' ''CONFIRMED'' False,
           new_event env (clock 1) (combine d2 (start_time_books inp)) 5
             (reading_summary (title b)) (reading_description env (title b) 5 5)
             (organizer_email_in inp) (organizer_name_in inp) reminders_config
             ''Sala de estudio'' ''CONFIRMED'' False,
           new_event env (clock 2) (combine d3 (start_time_review inp))
             (of_int (review_time_per_book_min inp))
             (review_summary (title b))
             (review_description env (title b) (1 / 3) (review_time_per_book_min inp))
             (organizer_email_in inp) (organizer_name_in inp) reminders_config
             ''Espacio de estudio tranquilo'' ''CONFIRMED'' True,
           new_event env (clock 3) (combine d2 (start_time_books inp) + 5) 10
             final_summary (final_description env 1)
             (organizer_email_in inp) (organizer_name_in inp) reminders_config
             [] ''CONFIRMED'' True],
         res_books_completed =
          [\<lparr>Libro = title b, Horas = py_round2 env (1 / 3), Fecha_de_finalizacion = d2\<rparr>],
         res_stats = \<lparr>total_events = 4, books_completed_count = 1,
            total_book_hours = 1 / 3, total_days = Some (d2 + 1 - start_date inp)\<rparr>,
         res_notices = [d2 + 1]\<rparr>"
proof -
  let ?t0 = "start_time_books inp"
  let ?e1 = "new_event env (clock 0) (combine d1 ?t0) 15
             (reading_summary (title b)) (reading_description env (title b) 20 15)
             (organizer_email_in inp) (organizer_name_in inp) reminders_config
             ''Sala de estudio'' ''CONFIRMED'' False"
  let ?e2 = "new_event env (clock 1) (combine d2 ?t0) 5
             (reading_summary (title b)) (reading_description env (title b) 5 5)
             (organizer_email_in inp) (organizer_name_in inp) reminders_config
             ''Sala de estudio'' ''CONFIRMED'' False"
  let ?st1 = "\<lparr>events = [?e1], books_completed = [], current_book_index = 0,
      current_book_remaining_min = 5, clock_reads = 1, notices = []\<rparr>"
  from review_date_loop_SomeD[OF r1] have d1: "start_date inp \<le> d1"
    "weekday d1 \<in> set (reading_weekdays inp)" by auto
  from review_date_loop_SomeD[OF r2] have d2: "d1 + 1 \<le> d2"
    "weekday d2 \<in> set (reading_weekdays inp)" by auto
  have "0 \<le> weekday d2" "weekday d2 < 7" using weekday_range by auto
  from review_date_loop_total[OF d2(2) this, of "d2 + 1"]
  obtain d3 where r3: "review_date_loop (reading_weekdays inp) (d2 + 1) = Some d3" by blast
  let ?e3 = "new_event env (clock 2) (combine d3 (start_time_review inp))
             (of_int (review_time_per_book_min inp))
             (review_summary (title b))
             (review_description env (title b) (1 / 3) (review_time_per_book_min inp))
             (organizer_email_in inp) (organizer_name_in inp) reminders_config
             ''Espacio de estudio tranquilo'' ''CONFIRMED'' True"
  let ?e4 = "new_event env (clock 3) (combine d2 ?t0 + 5) 10
             final_summary (final_description env 1)
             (organizer_email_in inp) (organizer_name_in inp) reminders_config
             [] ''CONFIRMED'' True"
  let ?ledger = "[\<lparr>Libro = title b, Horas = py_round2 env (1 / 3),
       Fecha_de_finalizacion = d2\<rparr>]"
  let ?st3 = "\<lparr>events = [?e1, ?e2, ?e3, ?e4], books_completed = ?ledger,
      current_book_index = 1, current_book_remaining_min = 0, clock_reads = 4,
      notices = []\<rparr>"
  have req: "calculate_reading_time_minutes b (reading_speeds inp) = 20"
    by (simp add: calculate_reading_time_minutes_def pg sp)
  have hrs: "calculate_reading_time_hours b (reading_speeds inp) = 1 / 3"
    by (simp add: calculate_reading_time_hours_def req)
  have st0: "initial_state inp = \<lparr>events = [], books_completed = [], current_book_index = 0,
      current_book_remaining_min = 20, clock_reads = 0, notices = []\<rparr>"
    by (simp add: initial_state_def bl req)
  define st1 where "st1 = ?st1"
  define st3 where "st3 = ?st3"
  have idx0: "current_book_index (initial_state inp) = 0" by (simp add: st0)
  have idx1: "current_book_index st1 = 0" by (simp add: st1_def)
  have idx3: "current_book_index st3 = 1" by (simp add: st3_def)
  have exit: "\<And>cd sst st. session_loop env clock inp cd 0 sst st = Some st"
    by (subst session_loop.simps) simp
  have body1: "session_body env clock inp d1 15 (combine d1 ?t0) (initial_state inp) =
      Some (Continue 0 (combine d1 ?t0 + 15) st1)"
    by (simp add: session_body_def read_session_def add_event_def Let_def st0 bl st1_def)
  have loop1: "session_loop env clock inp d1 15 (combine d1 ?t0) (initial_state inp) = Some st1"
    by (subst session_loop.simps) (simp add: body1 idx0 bl exit)
  have day1: "day_step env clock inp d1 (initial_state inp) = Some st1"
    using d1(2) loop1 by (simp add: day_step_def daily)
  have body2: "session_body env clock inp d2 15 (combine d2 ?t0) st1 = Some (Break st3)"
    by (simp add: session_body_def read_session_def add_event_def Let_def bl st1_def st3_def
        complete_book_def schedule_book_review_def r3 hrs final_event_def eval_nat_numeral)
  have loop2: "session_loop env clock inp d2 15 (combine d2 ?t0) st1 = Some st3"
    by (subst session_loop.simps) (simp add: body2 bl idx1)
  have day2: "day_step env clock inp d2 st1 = Some st3"
    using d2(2) loop2 by (simp add: day_step_def daily)
  have "plan_loop env clock inp (start_date inp) (initial_state inp) =
      plan_loop env clock inp d1 (initial_state inp)"
    by (rule plan_loop_skip[OF r1]) (use d2 en in \<open>simp_all add: idx0 bl\<close>)
  also have "\<dots> = plan_loop env clock inp (d1 + 1) st1"
    using d2 en by (subst plan_loop.simps) (simp add: day1 bl idx1)
  also have "\<dots> = plan_loop env clock inp d2 st1"
    by (rule plan_loop_skip[OF r2 en]) (simp add: bl idx1)
  also have "\<dots> = Some (d2 + 1, st3\<lparr>notices := notices st3 @ [d2 + 1]\<rparr>)"
    using en by (subst plan_loop.simps) (simp add: day2 bl idx3)
  finally have pl: "plan_loop env clock inp (start_date inp) (initial_state inp) =
      Some (d2 + 1, st3\<lparr>notices := notices st3 @ [d2 + 1]\<rparr>)" .
  have "create_reading_plan env clock inp =
       Some \<lparr>res_events = [?e1, ?e2, ?e3, ?e4], res_books_completed = ?ledger,
         res_stats = \<lparr>total_events = 4, books_completed_count = 1,
            total_book_hours = 1 / 3, total_days = Some (d2 + 1 - start_date inp)\<rparr>,
         res_notices = [d2 + 1]\<rparr>"
    using d1(1) d2(1) by (simp add: create_reading_plan_def pl bl hrs Let_def st3_def)
  then show ?thesis using r3 by blast
qed

text \<open>
  C3. On a reading day the body of the session loop returns, and it appends the current
  book to the ledger (with the current date) if and only if a session was emitted and the
  remaining minutes right after its subtraction are at most \<open>1/10\<close>; otherwise the ledger
  is unchanged. In particular, for a single book of 10 pages at 2 minutes a page and a
  budget of 15 minutes a day, with \<open>d1\<close> the first reading day from \<open>start_date\<close> on and
  \<open>d2\<close> the next one, \<open>d2\<close> within the window: the plan has a session of 15 minutes on
  \<open>d1\<close>, a session of 5 minutes on \<open>d2\<close>, the book in the ledger with date \<open>d2\<close>, one
  review event on the first reading day \<open>d3\<close> after \<open>d2\<close>, and the final integration
  event for the 10 minutes left on \<open>d2\<close>.
\<close>

theorem completion_threshold:
  "(weekday cd \<in> set (reading_weekdays inp) \<longrightarrow>
    (\<exists>r. session_body env clock inp cd rst sst st = Some r \<and>
      books_completed (case r of Break st' \<Rightarrow> st' | Continue rst' sst' st' \<Rightarrow> st') =
        (if 0 < min rst (current_book_remaining_min st) \<and>
            current_book_remaining_min st - min rst (current_book_remaining_min st) \<le> 1 / 10
         then books_completed st @
                [\<lparr>Libro = title (book_schedule_list inp ! current_book_index st),
                  Horas = py_round2 env (calculate_reading_time_hours
                     (book_schedule_list inp ! current_book_index st) (reading_speeds inp)),
                  Fecha_de_finalizacion = cd\<rparr>]
         else books_completed st))) \<and>
   (book_schedule_list inp = [b] \<and> pages b = 10 \<and>
    reading_speeds inp (category b) = Some 2 \<and> daily_time_total_minutes inp = 15 \<and>
    review_date_loop (reading_weekdays inp) (start_date inp) = Some d1 \<and>
    review_date_loop (reading_weekdays inp) (d1 + 1) = Some d2 \<and> d2 \<le> end_date inp \<longrightarrow>
    (\<exists>d3. review_date_loop (reading_weekdays inp) (d2 + 1) = Some d3 \<and>
      create_reading_plan env clock inp =
       Some \<lparr>res_events =
          [new_event env (clock 0) (combine d1 (start_time_books inp)) 15
             (reading_summary (title b)) (reading_description env (title b) 20 15)
             (organizer_email_in inp) (organizer_name_in inp) reminders_config
             ''Sala de estudio'' ''CONFIRMED'' False,
           new_event env (clock 1) (combine d2 (start_time_books inp)) 5
             (reading_summary (title b)) (reading_description env (title b) 5 5)
             (organizer_email_in inp) (organizer_name_in inp) reminders_config
             ''Sala de estudio'' ''CONFIRMED'' False,
           new_event env (clock 2) (combine d3 (start_time_review inp))
             (of_int (review_time_per_book_min inp))
             (review_summary (title b))
             (review_description env (title b) (1 / 3) (review_time_per_book_min inp))
             (organizer_email_in inp) (organizer_name_in inp) reminders_config
             ''Espacio de estudio tranquilo'' ''CONFIRMED'' True,
           new_event env (clock 3) (combine d2 (start_time_books inp) + 5) 10
             final_summary (final_description env 1)
             (organizer_email_in inp) (organizer_name_in inp) reminders_config
             [] ''CONFIRMED'' True],
         res_books_completed =
          [\<lparr>Libro = title b, Horas = py_round2 env (1 / 3), Fecha_de_finalizacion = d2\<rparr>],
         res_stats = \<lparr>total_events = 4, books_completed_count = 1,
            total_book_hours = 1 / 3, total_days = Some (d2 + 1 - start_date inp)\<rparr>,
         res_notices = [d2 + 1]\<rparr>))"
  using session_body_completion_threshold[of cd inp env clock rst sst st]
    twenty_minutes_in_two_days[of inp b d1 d2 env clock]
  by blast

theorem completion_threshold_witness:
  "weekday 739257 \<in> set (reading_weekdays example_input) \<and>
   (\<exists>r. session_body example_env example_clock example_input 739257 15 (combine 739257 600) (initial_state example_input) = Some r \<and>
      books_completed (case r of Break st' \<Rightarrow> st' | Continue rst' sst' st' \<Rightarrow> st') =
        (if 0 < min 15 (current_book_remaining_min (initial_state example_input)) \<and>
            current_book_remaining_min (initial_state example_input) - min 15 (current_book_remaining_min (initial_state example_input)) \<le> 1 / 10
         then books_completed (initial_state example_input) @
                [\<lparr>Libro = title (book_schedule_list example_input ! current_book_index (initial_state example_input)),
                  Horas = py_round2 example_env (calculate_reading_time_hours
                     (book_schedule_list example_input ! current_book_index (initial_state example_input)) (reading_speeds example_input)),
                  Fecha_de_finalizacion = 739257\<rparr>]
         else books_completed (initial_state example_input))) \<and>
   book_schedule_list example_input = [example_book] \<and> pages example_book = 10 \<and>
   reading_speeds example_input (category example_book) = Some 2 \<and>
   daily_time_total_minutes example_input = 15 \<and>
   review_date_loop (reading_weekdays example_input) (start_date example_input) = Some 739257 \<and>
   review_date_loop (reading_weekdays example_input) (739257 + 1) = Some 739258 \<and>
   739258 \<le> end_date example_input \<and>
   (\<exists>d3. review_date_loop (reading_weekdays example_input) (739258 + 1) = Some d3 \<and>
      create_reading_plan example_env example_clock example_input =
       Some \<lparr>res_events =
          [new_event example_env (example_clock 0) (combine 739257 (start_time_books example_input)) 15
             (reading_summary (title example_book)) (reading_description example_env (title example_book) 20 15)
             (organizer_email_in example_input) (organizer_name_in example_input) reminders_config
             ''Sala de estudio'' ''CONFIRMED'' False,
           new_event example_env (example_clock 1) (combine 739258 (start_time_books example_input)) 5
             (reading_summary (title example_book)) (reading_description example_env (title example_book) 5 5)
             (organizer_email_in example_input) (organizer_name_in example_input) reminders_config
             ''Sala de estudio'' ''CONFIRMED'' False,
           new_event example_env (example_clock 2) (combine d3 (start_time_review example_input))
             (of_int (review_time_per_book_min example_input))
             (review_summary (title example_book))
             (review_description example_env (title example_book) (1 / 3) (review_time_per_book_min example_input))
             (organizer_email_in example_input) (organizer_name_in example_input) reminders_config
             ''Espacio de estudio tranquilo'' ''CONFIRMED'' True,
           new_event example_env (example_clock 3) (combine 739258 (start_time_books example_input) + 5) 10
             final_summary (final_description example_env 1)
             (organizer_email_in example_input) (organizer_name_in example_input) reminders_config
             [] ''CONFIRMED'' True],
         res_books_completed =
          [\<lparr>Libro = title example_book, Horas = py_round2 example_env (1 / 3), Fecha_de_finalizacion = 739258\<rparr>],
         res_stats = \<lparr>total_events = 4, books_completed_count = 1,
            total_book_hours = 1 / 3, total_days = Some (739258 + 1 - start_date example_input)\<rparr>,
         res_notices = [739258 + 1]\<rparr>)"
proof -
  have wk: "weekday 739257 \<in> set (reading_weekdays example_input)"
    by (simp add: example_input_def weekday_def)
  have h: "book_schedule_list example_input = [example_book]" "pages example_book = 10"
    "reading_speeds example_input (category example_book) = Some 2"
    "daily_time_total_minutes example_input = 15" "739258 \<le> end_date example_input"
    by (simp_all add: example_input_def example_book_def)
  have r1: "review_date_loop (reading_weekdays example_input) (start_date example_input) =
      Some 739257"
    by (subst review_date_loop.simps) (simp add: example_input_def weekday_def)
  have r2: "review_date_loop (reading_weekdays example_input) (739257 + 1) = Some 739258"
    by (subst review_date_loop.simps) (simp add: example_input_def weekday_def)
  note t = completion_threshold [of 739257 example_input example_env example_clock 15
      "combine 739257 600" "initial_state example_input" example_book 739257 739258]
  from t wk have a: "(\<exists>r. session_body example_env example_clock example_input 739257 15 (combine 739257 600) (initial_state example_input) = Some r \<and>
      books_completed (case r of Break st' \<Rightarrow> st' | Continue rst' sst' st' \<Rightarrow> st') =
        (if 0 < min 15 (current_book_remaining_min (initial_state example_input)) \<and>
            current_book_remaining_min (initial_state example_input) - min 15 (current_book_remaining_min (initial_state example_input)) \<le> 1 / 10
         then books_completed (initial_state example_input) @
                [\<lparr>Libro = title (book_schedule_list example_input ! current_book_index (initial_state example_input)),
                  Horas = py_round2 example_env (calculate_reading_time_hours
                     (book_schedule_list example_input ! current_book_index (initial_state example_input)) (reading_speeds example_input)),
                  Fecha_de_finalizacion = 739257\<rparr>]
         else books_completed (initial_state example_input)))"
    by blast
  from t h r1 r2 have b: "(\<exists>d3. review_date_loop (reading_weekdays example_input) (739258 + 1) = Some d3 \<and>
      create_reading_plan example_env example_clock example_input =
       Some \<lparr>res_events =
          [new_event example_env (example_clock 0) (combine 739257 (start_time_books example_input)) 15
             (reading_summary (title example_book)) (reading_description example_env (title example_book) 20 15)
             (organizer_email_in example_input) (organizer_name_in example_input) reminders_config
             ''Sala de estudio'' ''CONFIRMED'' False,
           new_event example_env (example_clock 1) (combine 739258 (start_time_books example_input)) 5
             (reading_summary (title example_book)) (reading_description example_env (title example_book) 5 5)
             (organizer_email_in example_input) (organizer_name_in example_input) reminders_config
             ''Sala de estudio'' ''CONFIRMED'' False,
           new_event example_env (example_clock 2) (combine d3 (start_time_review example_input))
             (of_int (review_time_per_book_min example_input))
             (review_summary (title example_book))
             (review_description example_env (title example_book) (1 / 3) (review_time_per_book_min example_input))
             (organizer_email_in example_input) (organizer_name_in example_input) reminders_config
             ''Espacio de estudio tranquilo'' ''CONFIRMED'' True,
           new_event example_env (example_clock 3) (combine 739258 (start_time_books example_input) + 5) 10
             final_summary (final_description example_env 1)
             (organizer_email_in example_input) (organizer_name_in example_input) reminders_config
             [] ''CONFIRMED'' True],
         res_books_completed =
          [\<lparr>Libro = title example_book, Horas = py_round2 example_env (1 / 3), Fecha_de_finalizacion = 739258\<rparr>],
         res_stats = \<lparr>total_events = 4, books_completed_count = 1,
            total_book_hours = 1 / 3, total_days = Some (739258 + 1 - start_date example_input)\<rparr>,
         res_notices = [739258 + 1]\<rparr>)"
    by blast
  from wk a h r1 r2 b show ?thesis by blast
qed

subsection \<open>The order of the events\<close>

lemma combine_Suc: "combine (cd + 1) t = combine cd t + 1440"
  by (simp add: combine_def algebra_simps)

lemma location_new_event [simp]:
  "location (new_event env now s m sm ds oe on rc loc stt rv) = escape_ics_text loc"
  by (simp add: new_event_def Let_def)

lemma escape_ics_text_inj: "escape_ics_text a = escape_ics_text b \<Longrightarrow> a = b"
  by (metis unescape_escape)

lemma is_book_review_new_event:
  "is_book_review (new_event env now s m sm ds oe on rc loc stt rv) =
     (loc = ''Espacio de estudio tranquilo'')"
  using escape_ics_text_inj by (auto simp: is_book_review_def)

lemma sessions_and_final_append:
  "sessions_and_final (evs @ [e]) =
     (if is_book_review e then sessions_and_final evs else sessions_and_final evs @ [e])"
  by (simp add: sessions_and_final_def)

lemma ordered_until_mono: "ordered_until b evs \<Longrightarrow> b \<le> b' \<Longrightarrow> ordered_until b' evs"
  by (fastforce simp: ordered_until_def)

lemma ordered_until_review:
  "ordered_until b evs \<Longrightarrow>
   ordered_until b (evs @ [new_event env now s m sm ds oe on rc
       ''Espacio de estudio tranquilo'' stt True])"
  by (auto simp: ordered_until_def sessions_and_final_append is_book_review_new_event)

lemma ordered_until_session:
  assumes "ordered_until b evs" and "0 < m" and "loc \<noteq> ''Espacio de estudio tranquilo''"
  shows "ordered_until (b + m) (evs @ [new_event env now b m sm ds oe on rc loc stt rv])"
  using assms
  by (auto simp: ordered_until_def sessions_and_final_append is_book_review_new_event
      sorted_wrt_append before_def)

lemma read_session_events:
  "events (read_session env clock inp sst ttd st) =
     events st @ [new_event env (clock (clock_reads st)) sst ttd
        (reading_summary (title (book_schedule_list inp ! current_book_index st)))
        (reading_description env (title (book_schedule_list inp ! current_book_index st))
           (current_book_remaining_min st) ttd)
        (organizer_email_in inp) (organizer_name_in inp) reminders_config
        ''Sala de estudio'' ''CONFIRMED'' False]"
  by (simp add: read_session_def Let_def add_event_def)

lemma ordered_until_read_session:
  assumes "ordered_until sst (events st)" and "0 < ttd"
  shows "ordered_until (sst + ttd) (events (read_session env clock inp sst ttd st))"
  unfolding read_session_events
  by (rule ordered_until_session[OF assms]) simp

lemma ordered_until_complete_book:
  assumes "complete_book env clock inp cd st = Some st2" and "ordered_until b (events st)"
  shows "ordered_until b (events st2)"
proof -
  from complete_book_SomeD[OF assms(1)] obtain rd where
    "events st2 = events st @ [new_event env (clock (clock_reads st))
        (combine rd (start_time_review inp)) (of_int (review_time_per_book_min inp))
        (review_summary (title (book_schedule_list inp ! current_book_index st)))
        (review_description env (title (book_schedule_list inp ! current_book_index st))
           (calculate_reading_time_hours
              (book_schedule_list inp ! current_book_index st) (reading_speeds inp))
           (review_time_per_book_min inp))
        (organizer_email_in inp) (organizer_name_in inp) reminders_config
        ''Espacio de estudio tranquilo'' ''CONFIRMED'' True]"
    by auto
  then show ?thesis using ordered_until_review[OF assms(2)] by simp
qed

lemma ordered_until_final_event:
  assumes "ordered_until sst (events st)" and "0 \<le> rst"
  shows "ordered_until (sst + rst) (events (final_event env clock inp sst rst st))"
proof (cases "0 < rst")
  case True
  have "[] \<noteq> ''Espacio de estudio tranquilo''" by simp
  from ordered_until_session[OF assms(1) True this] True show ?thesis
    by (simp add: final_event_def add_event_def)
next
  case False
  then show ?thesis using assms by (simp add: final_event_def)
qed

lemma session_body_ordered:
  assumes body: "session_body env clock inp cd rst sst st = Some r"
    and inv: "ordered_until sst (events st)" and pos: "0 < rst"
  shows "case r of
       Break st' \<Rightarrow> ordered_until (sst + rst) (events st')
     | Continue rst' sst' st' \<Rightarrow>
         ordered_until sst' (events st') \<and> 0 \<le> rst' \<and> sst' + rst' = sst + rst"
proof -
  define ttd where "ttd = min rst (current_book_remaining_min st)"
  have le: "ttd \<le> rst" by (simp add: ttd_def)
  show ?thesis
  proof (rule session_body_cases[OF body, folded ttd_def])
    assume "ttd \<le> 0" "r = Break st"
    moreover have "ordered_until (sst + rst) (events st)"
      by (rule ordered_until_mono[OF inv]) (use pos in simp)
    ultimately show ?thesis by simp
  next
    assume a: "0 < ttd" "1 / 10 < current_book_remaining_min st - ttd"
      "r = Continue (rst - ttd) (sst + ttd) (read_session env clock inp sst ttd st)"
    show ?thesis using ordered_until_read_session[OF inv a(1)] le a(3) by simp
  next
    fix st2
    assume a: "0 < ttd" "current_book_remaining_min st - ttd \<le> 1 / 10"
      "complete_book env clock inp cd (read_session env clock inp sst ttd st) = Some st2"
      "r = Continue (rst - ttd) (sst + ttd)
         (st2\<lparr>current_book_remaining_min :=
            calculate_reading_time_minutes (book_schedule_list inp ! current_book_index st2)
              (reading_speeds inp)\<rparr>)"
    from ordered_until_complete_book[OF a(3) ordered_until_read_session[OF inv a(1)]]
    show ?thesis using le a(4) by simp
  next
    fix st2
    assume a: "0 < ttd" "current_book_remaining_min st - ttd \<le> 1 / 10"
      "complete_book env clock inp cd (read_session env clock inp sst ttd st) = Some st2"
      "r = Break (final_event env clock inp (sst + ttd) (rst - ttd) st2)"
    have "0 \<le> rst - ttd" using le by simp
    from ordered_until_final_event[OF
        ordered_until_complete_book[OF a(3) ordered_until_read_session[OF inv a(1)]] this]
    show ?thesis using a(4) by simp
  qed
qed

lemma session_loop_ordered:
  assumes run: "session_loop env clock inp cd rst sst st = Some st'"
    and inv: "ordered_until sst (events st)" and bound: "sst + max rst 0 \<le> b"
  shows "ordered_until b (events st')"
proof (rule session_loop_rule[OF run, where
      I = "\<lambda>rst sst st. ordered_until sst (events st) \<and> sst + max rst 0 \<le> b"])
  show "ordered_until sst (events st) \<and> sst + max rst 0 \<le> b" using inv bound by simp
next
  fix rst sst and st st' :: plan_state
  assume a: "ordered_until sst (events st) \<and> sst + max rst 0 \<le> b" "0 < rst"
    "session_body env clock inp cd rst sst st = Some (Break st')"
  from session_body_ordered[OF a(3) _ a(2)] a(1) have "ordered_until (sst + rst) (events st')"
    by simp
  moreover have "sst + rst \<le> b" using a(1,2) by simp
  ultimately show "ordered_until b (events st')" by (rule ordered_until_mono)
next
  fix rst sst rst' sst' and st st' :: plan_state
  assume a: "ordered_until sst (events st) \<and> sst + max rst 0 \<le> b" "0 < rst"
    "session_body env clock inp cd rst sst st = Some (Continue rst' sst' st')"
  from session_body_ordered[OF a(3) _ a(2)] a(1)
  have "ordered_until sst' (events st') \<and> 0 \<le> rst' \<and> sst' + rst' = sst + rst" by simp
  then show "ordered_until sst' (events st') \<and> sst' + max rst' 0 \<le> b" using a(1,2) by auto
next
  fix rst sst and st :: plan_state
  assume a: "ordered_until sst (events st) \<and> sst + max rst 0 \<le> b"
  then have "sst \<le> b" by (simp add: max_def split: if_splits)
  with a show "ordered_until b (events st)" by (blast intro: ordered_until_mono)
qed

lemma plan_loop_ordered:
  assumes run: "plan_loop env clock inp cd st = Some (cd', st')"
    and daily: "daily_time_total_minutes inp \<le> 1440"
    and inv: "ordered_until (combine cd (start_time_books inp)) (events st)"
  shows "ordered_until (combine cd' (start_time_books inp)) (events st')"
proof (rule plan_loop_rule[OF run, where
      I = "\<lambda>cd st. ordered_until (combine cd (start_time_books inp)) (events st)" and
      Q = "\<lambda>cd st. ordered_until (combine cd (start_time_books inp)) (events st)"])
  show "ordered_until (combine cd (start_time_books inp)) (events st)" by (rule inv)
next
  fix cd and st st1 :: plan_state
  assume a: "ordered_until (combine cd (start_time_books inp)) (events st)"
    "day_step env clock inp cd st = Some st1"
  show "ordered_until (combine (cd + 1) (start_time_books inp)) (events st1)"
  proof (cases "weekday cd \<in> set (reading_weekdays inp)")
    case False
    then have "st1 = st" using a(2) by (simp add: day_step_def)
    moreover have "ordered_until (combine (cd + 1) (start_time_books inp)) (events st)"
      by (rule ordered_until_mono[OF a(1)]) (simp add: combine_Suc)
    ultimately show ?thesis by simp
  next
    case True
    then have sl: "session_loop env clock inp cd (of_int (daily_time_total_minutes inp))
        (combine cd (start_time_books inp)) st = Some st1"
      using a(2) by (simp add: day_step_def)
    have "max (rat_of_int (daily_time_total_minutes inp)) 0 \<le> 1440"
      using daily by (simp add: of_int_le_numeral_iff[symmetric] del: of_int_le_numeral_iff)
    then have "combine cd (start_time_books inp) +
        max (rat_of_int (daily_time_total_minutes inp)) 0
        \<le> combine (cd + 1) (start_time_books inp)"
      by (simp add: combine_Suc)
    from session_loop_ordered[OF sl a(1) this] show ?thesis .
  qed
qed simp_all

text \<open>
  C2, as the code has it. With a daily budget of at most 1440 minutes
  \<open>create_reading_plan\<close> returns, and in the list it returns the reading sessions
  together with the final integration event are in increasing start-time order, each
  over when the next one starts; so are the reading sessions alone, and no two of them
  overlap. The book reviews are left out: a review is appended when its book completes
  and dated on a later day, before the events that the rest of the completion day adds.
\<close>

theorem sessions_in_start_order:
  assumes "daily_time_total_minutes inp \<le> 1440"
  shows "\<exists>r. create_reading_plan env clock inp = Some r \<and>
     sorted_wrt before (sessions_and_final (res_events r)) \<and>
     sorted_wrt before (filter (\<lambda>e. priority e = 5) (res_events r))"
proof -
  obtain r where r: "create_reading_plan env clock inp = Some r"
    using create_reading_plan_Some by blast
  have "\<exists>b. ordered_until b (res_events r)"
  proof (cases "book_schedule_list inp = []")
    case True
    then have "res_events r = []" using r by (auto simp: create_reading_plan_def)
    then show ?thesis by (simp add: ordered_until_def sessions_and_final_def)
  next
    case False
    then obtain cd st where
      pl: "plan_loop env clock inp (start_date inp) (initial_state inp) = Some (cd, st)"
      and ev: "res_events r = events st"
      using r by (auto simp: create_reading_plan_def Let_def split: option.splits)
    have "ordered_until (combine (start_date inp) (start_time_books inp))
        (events (initial_state inp))"
      by (simp add: ordered_until_def sessions_and_final_def initial_state_def)
    from plan_loop_ordered[OF pl assms this] ev show ?thesis by auto
  qed
  then obtain b where ou: "ordered_until b (res_events r)" ..
  then have s1: "sorted_wrt before (sessions_and_final (res_events r))"
    and pr: "\<forall>e\<in>set (res_events r). priority e = 5 \<longrightarrow> \<not> is_book_review e"
    by (simp_all add: ordered_until_def)
  have "filter (\<lambda>e. priority e = 5) (res_events r) =
      filter (\<lambda>e. priority e = 5) (sessions_and_final (res_events r))"
    using pr by (auto simp: sessions_and_final_def intro: filter_cong)
  then have "sorted_wrt before (filter (\<lambda>e. priority e = 5) (res_events r))"
    using s1 by (simp add: sorted_wrt_filter)
  then show ?thesis using r s1 by blast
qed

theorem sessions_in_start_order_witness:
  "daily_time_total_minutes example_input \<le> 1440 \<and>
   (\<exists>r. create_reading_plan example_env example_clock example_input = Some r \<and>
     sorted_wrt before (sessions_and_final (res_events r)) \<and>
     sorted_wrt before (filter (\<lambda>e. priority e = 5) (res_events r)))"
proof -
  have h: "daily_time_total_minutes example_input \<le> 1440"
    by (simp add: example_input_def)
  from sessions_in_start_order [OF h, of example_env example_clock] h
  show ?thesis by blast
qed

text \<open>C2 as the specification words it does not hold: in the plan of the example the
  review (third) starts after the final integration event (fourth).\<close>

lemma example_plan_starts:
  "map dtstart (res_events (the (create_reading_plan example_env example_clock example_input))) =
     [1064530680, 1064532120, 1064534100, 1064532125]"
proof -
  have h: "book_schedule_list example_input = [example_book]" "pages example_book = 10"
    "reading_speeds example_input (category example_book) = Some 2"
    "daily_time_total_minutes example_input = 15" "739258 \<le> end_date example_input"
    by (simp_all add: example_input_def example_book_def)
  have r1: "review_date_loop (reading_weekdays example_input) (start_date example_input) =
      Some 739257"
    by (subst review_date_loop.simps) (simp add: example_input_def weekday_def)
  have r2: "review_date_loop (reading_weekdays example_input) (739257 + 1) = Some 739258"
    by (subst review_date_loop.simps) (simp add: example_input_def weekday_def)
  have r3: "review_date_loop (reading_weekdays example_input) (739258 + 1) = Some 739259"
    by (subst review_date_loop.simps) (simp add: example_input_def weekday_def)
  from twenty_minutes_in_two_days[OF h(1-4) r1 r2 h(5), of example_env example_clock]
  obtain d3 r where d3: "review_date_loop (reading_weekdays example_input) (739258 + 1) = Some d3"
    and r: "create_reading_plan example_env example_clock example_input = Some r"
    and st: "map dtstart (res_events r) =
       [combine 739257 (start_time_books example_input),
        combine 739258 (start_time_books example_input),
        combine d3 (start_time_review example_input),
        combine 739258 (start_time_books example_input) + 5]"
    by auto
  from d3 r3 have "d3 = 739259" by simp
  then show ?thesis using r st by (simp add: combine_def example_input_def)
qed

theorem event_list_not_in_start_order:
  "map dtstart (res_events (the (create_reading_plan example_env example_clock example_input))) =
     [1064530680, 1064532120, 1064534100, 1064532125] \<and>
   \<not> sorted (map dtstart
       (res_events (the (create_reading_plan example_env example_clock example_input))))"
  by (simp add: example_plan_starts)

subsection \<open>Conservation of the minutes\<close>

lemma session_account_Nil [simp]: "session_account [] = ([], 0)"
  by (simp add: session_account_def)

lemma session_account_append:
  "session_account (evs @ [e]) = account_step (session_account evs) e"
  by (simp add: session_account_def)

lemma account_step_session:
  "account_step acc (new_event env now s m sm ds oe on rc ''Sala de estudio'' stt False) =
     (fst acc, snd acc + m)"
  by (simp add: account_step_def is_book_review_new_event)

lemma account_step_review:
  "account_step acc
     (new_event env now s m sm ds oe on rc ''Espacio de estudio tranquilo'' stt True) =
     (fst acc @ [snd acc], 0)"
  by (simp add: account_step_def is_book_review_new_event)

lemma account_step_final:
  "account_step acc (new_event env now s m sm ds oe on rc [] stt True) = acc"
  by (simp add: account_step_def is_book_review_new_event)

lemma session_account_read_session:
  "session_account (events (read_session env clock inp sst ttd st)) =
     (fst (session_account (events st)), snd (session_account (events st)) + ttd)"
  by (simp only: read_session_events session_account_append account_step_session)

lemma session_account_complete_book:
  assumes "complete_book env clock inp cd st = Some st2"
  shows "session_account (events st2) =
     (fst (session_account (events st)) @ [snd (session_account (events st))], 0)"
proof -
  from complete_book_SomeD[OF assms] obtain rd where
    "events st2 = events st @ [new_event env (clock (clock_reads st))
        (combine rd (start_time_review inp)) (of_int (review_time_per_book_min inp))
        (review_summary (title (book_schedule_list inp ! current_book_index st)))
        (review_description env (title (book_schedule_list inp ! current_book_index st))
           (calculate_reading_time_hours
              (book_schedule_list inp ! current_book_index st) (reading_speeds inp))
           (review_time_per_book_min inp))
        (organizer_email_in inp) (organizer_name_in inp) reminders_config
        ''Espacio de estudio tranquilo'' ''CONFIRMED'' True]"
    by auto
  then show ?thesis by (simp only: session_account_append account_step_review)
qed

lemma session_account_final_event:
  "session_account (events (final_event env clock inp sst rst st)) =
     session_account (events st)"
  by (simp add: final_event_def add_event_def session_account_append account_step_final)

lemma read_session_fields [simp]:
  "current_book_index (read_session env clock inp sst ttd st) = current_book_index st"
  "books_completed (read_session env clock inp sst ttd st) = books_completed st"
  "current_book_remaining_min (read_session env clock inp sst ttd st) =
     current_book_remaining_min st - ttd"
  by (simp_all add: read_session_def Let_def)

lemma final_event_fields [simp]:
  "current_book_index (final_event env clock inp sst rst st) = current_book_index st"
  "books_completed (final_event env clock inp sst rst st) = books_completed st"
  "current_book_remaining_min (final_event env clock inp sst rst st) =
     current_book_remaining_min st"
  by (simp_all add: final_event_def)

lemma complete_book_fields:
  assumes "complete_book env clock inp cd st = Some st2"
  shows "current_book_index st2 = Suc (current_book_index st)"
    and "length (books_completed st2) = Suc (length (books_completed st))"
    and "current_book_remaining_min st2 = current_book_remaining_min st"
  using complete_book_SomeD[OF assms] by auto









text \<open>Two books of the same title, 20 minutes each at 15 minutes a day: each has its own
  20 minutes of sessions in the account.\<close>

lemma session_account_remaining_update [simp]:
  "session_account (events (st\<lparr>current_book_remaining_min := v\<rparr>)) = session_account (events st)"
  by simp

lemma twin_plan_account:
  "\<exists>r. create_reading_plan env clock twin_input = Some r \<and>
     length (res_books_completed r) = 2 \<and>
     minutes_of_book 0 (res_events r) = 20 \<and> minutes_of_book 1 (res_events r) = 20"
proof -
  let ?inp = twin_input
  have bl: "book_schedule_list ?inp = [example_book, example_book]"
    and len: "length (book_schedule_list ?inp) = 2"
    and daily: "daily_time_total_minutes ?inp = 15"
    and sd: "start_date ?inp = 739257" and en: "end_date ?inp = 739377"
    by (simp_all add: twin_input_def example_input_def)
  have wk: "weekday 739257 \<in> set (reading_weekdays ?inp)"
    "weekday 739258 \<in> set (reading_weekdays ?inp)"
    "weekday 739259 \<in> set (reading_weekdays ?inp)"
    by (simp_all add: twin_input_def example_input_def weekday_def)
  have req: "\<And>j. j < 2 \<Longrightarrow>
      calculate_reading_time_minutes (book_schedule_list ?inp ! j) (reading_speeds ?inp) = 20"
    by (auto simp: bl less_2_cases_iff calculate_reading_time_minutes_def twin_input_def
        example_input_def example_book_def)
  have exit: "\<And>cd sst st. session_loop env clock ?inp cd 0 sst st = Some st"
    by (subst session_loop.simps) simp
  let ?t0 = "start_time_books ?inp"
  define s0 where "s0 = initial_state ?inp"
  have f0: "current_book_index s0 = 0" "current_book_remaining_min s0 = 20"
    "length (books_completed s0) = 0" "session_account (events s0) = ([], 0)"
    using req[of 0] by (simp_all add: s0_def initial_state_def)
  \<comment> \<open>Monday: 15 of the 20 minutes of the first book.\<close>
  define s1 where "s1 = read_session env clock ?inp (combine 739257 ?t0) 15 s0"
  have f1: "current_book_index s1 = 0" "current_book_remaining_min s1 = 5"
    "length (books_completed s1) = 0" "session_account (events s1) = ([], 15)"
    using f0 by (simp_all add: s1_def session_account_read_session)
  have body1: "session_body env clock ?inp 739257 15 (combine 739257 ?t0) s0 =
      Some (Continue 0 (combine 739257 ?t0 + 15) s1)"
    using f0 by (simp add: session_body_def Let_def s1_def)
  have loop1: "session_loop env clock ?inp 739257 15 (combine 739257 ?t0) s0 = Some s1"
    by (subst session_loop.simps) (simp add: body1 f0 len exit)
  have day1: "day_step env clock ?inp 739257 s0 = Some s1"
    using wk(1) loop1 by (simp add: day_step_def daily)
  \<comment> \<open>Tuesday: the last 5 minutes of the first book, then 10 of the second.\<close>
  define s2r where "s2r = read_session env clock ?inp (combine 739258 ?t0) 5 s1"
  have f2r: "current_book_index s2r = 0" "current_book_remaining_min s2r = 0"
    "length (books_completed s2r) = 0" "session_account (events s2r) = ([], 20)"
    using f1 by (simp_all add: s2r_def session_account_read_session)
  obtain s2c where c2: "complete_book env clock ?inp 739258 s2r = Some s2c"
    using complete_book_Some[OF wk(2)] by blast
  have f2c: "current_book_index s2c = 1" "length (books_completed s2c) = 1"
    "session_account (events s2c) = ([20], 0)"
    using complete_book_fields[OF c2] session_account_complete_book[OF c2] f2r by simp_all
  define s2 where "s2 = s2c\<lparr>current_book_remaining_min := 20\<rparr>"
  have f2: "current_book_index s2 = 1" "current_book_remaining_min s2 = 20"
    "length (books_completed s2) = 1" "session_account (events s2) = ([20], 0)"
    using f2c by (simp_all add: s2_def)
  have body2a: "session_body env clock ?inp 739258 15 (combine 739258 ?t0) s1 =
      Some (Continue 10 (combine 739258 ?t0 + 5) s2)"
    using f1 f2c req[of 1]
    by (simp add: session_body_def Let_def s2r_def[symmetric] f2r c2 len s2_def)
  define s3 where "s3 = read_session env clock ?inp (combine 739258 ?t0 + 5) 10 s2"
  have f3: "current_book_index s3 = 1" "current_book_remaining_min s3 = 10"
    "length (books_completed s3) = 1" "session_account (events s3) = ([20], 10)"
    using f2 by (simp_all add: s3_def session_account_read_session)
  have body2b: "session_body env clock ?inp 739258 10 (combine 739258 ?t0 + 5) s2 =
      Some (Continue 0 (combine 739258 ?t0 + 5 + 10) s3)"
    using f2 by (simp add: session_body_def Let_def s3_def)
  have loop2b: "session_loop env clock ?inp 739258 10 (combine 739258 ?t0 + 5) s2 = Some s3"
    by (subst session_loop.simps) (simp add: body2b f2 len exit)
  have loop2: "session_loop env clock ?inp 739258 15 (combine 739258 ?t0) s1 = Some s3"
    by (subst session_loop.simps) (simp add: body2a f1 len loop2b)
  have day2: "day_step env clock ?inp 739258 s1 = Some s3"
    using wk(2) loop2 by (simp add: day_step_def daily)
  \<comment> \<open>Wednesday: the last 10 minutes of the second book.\<close>
  define s4r where "s4r = read_session env clock ?inp (combine 739259 ?t0) 10 s3"
  have f4r: "current_book_index s4r = 1" "current_book_remaining_min s4r = 0"
    "length (books_completed s4r) = 1" "session_account (events s4r) = ([20], 20)"
    using f3 by (simp_all add: s4r_def session_account_read_session)
  obtain s4c where c4: "complete_book env clock ?inp 739259 s4r = Some s4c"
    using complete_book_Some[OF wk(3)] by blast
  have f4c: "current_book_index s4c = 2" "length (books_completed s4c) = 2"
    "session_account (events s4c) = ([20, 20], 0)"
    using complete_book_fields[OF c4] session_account_complete_book[OF c4] f4r by simp_all
  define s4 where "s4 = final_event env clock ?inp (combine 739259 ?t0 + 10) 5 s4c"
  have f4: "current_book_index s4 = 2" "length (books_completed s4) = 2"
    "session_account (events s4) = ([20, 20], 0)"
    using f4c by (simp_all add: s4_def session_account_final_event)
  have body3: "session_body env clock ?inp 739259 15 (combine 739259 ?t0) s3 = Some (Break s4)"
    using f3 f4c
    by (simp add: session_body_def Let_def s4r_def[symmetric] f4r c4 len s4_def)
  have loop3: "session_loop env clock ?inp 739259 15 (combine 739259 ?t0) s3 = Some s4"
    by (subst session_loop.simps) (simp add: body3 f3 len)
  have day3: "day_step env clock ?inp 739259 s3 = Some s4"
    using wk(3) loop3 by (simp add: day_step_def daily)
  have p3: "plan_loop env clock ?inp 739259 s3 =
      Some (739260, s4\<lparr>notices := notices s4 @ [739260]\<rparr>)"
    by (subst plan_loop.simps) (simp add: day3 en f4 len)
  have p2: "plan_loop env clock ?inp 739258 s1 =
      Some (739260, s4\<lparr>notices := notices s4 @ [739260]\<rparr>)"
    by (subst plan_loop.simps) (simp add: day2 en f3 len p3)
  have p1: "plan_loop env clock ?inp 739257 s0 =
      Some (739260, s4\<lparr>notices := notices s4 @ [739260]\<rparr>)"
    by (subst plan_loop.simps) (simp add: day1 en f1 len p2)
  have "book_schedule_list ?inp \<noteq> []" by (simp add: bl)
  then show ?thesis
    using p1 f4
    by (simp add: create_reading_plan_def Let_def sd s0_def[symmetric] minutes_of_book_def)
qed



end
